theory Spec2Isabelle
  imports Complex_Main "HOL-Library.Word"
begin

section \<open>Values and objects\<close>

text \<open>
  The editor is written in JavaScript. Its numbers are IEEE doubles; they are idealised
  here as reals, so rounding, NaN, the infinities and the negative zero are outside the
  model. A plot object is a dynamic JavaScript object: a map from property names to
  values in which reading an absent property yields \<open>undefined\<close>.
\<close>

datatype jsval = JUndefined | JNull | JNum real | JStr string | JBool bool

type_synonym jsobj = "string \<Rightarrow> jsval"

definition empty_obj :: jsobj where
  "empty_obj = (\<lambda>_. JUndefined)"

section \<open>Coordinate transform\<close>

record plot_bounds =
  x_min :: real
  x_max :: real
  y_min :: real
  y_max :: real

text \<open>
  The fields of \<open>PlotEditor\<close> read by the two transforms. \<open>plot_width\<close> and
  \<open>plot_height\<close> are the canvas size minus twice the padding; the canvas element itself
  comes from the page, so both are fields here.
\<close>

record view =
  bounds :: plot_bounds
  canvas_padding :: real
  plot_width :: real
  plot_height :: real
  aspect_ratio :: real

record layout =
  effective_width :: real
  effective_height :: real
  x_offset :: real
  y_offset :: real

text \<open>
  The block of \<open>plotToCanvas\<close> that fits the plot into the canvas. The formulas are
  read in exact arithmetic; they place the endpoints of the braces below. What the rounding
  of the doubles does to a coordinate is outside the model.
\<close>

definition plotToCanvas_layout :: "view \<Rightarrow> layout" where
  "plotToCanvas_layout v =
     (let plot_x_range = x_max (bounds v) - x_min (bounds v);
          plot_y_range = y_max (bounds v) - y_min (bounds v);
          canvas_aspect = plot_width v / plot_height v;
          plot_aspect = (plot_x_range * aspect_ratio v) / plot_y_range
      in if plot_aspect > canvas_aspect
         then \<lparr>effective_width = plot_width v,
               effective_height = plot_width v / plot_aspect,
               x_offset = 0,
               y_offset = (plot_height v - plot_width v / plot_aspect) / 2\<rparr>
         else \<lparr>effective_width = plot_height v * plot_aspect,
               effective_height = plot_height v,
               x_offset = (plot_width v - plot_height v * plot_aspect) / 2,
               y_offset = 0\<rparr>)"

definition plotToCanvas :: "view \<Rightarrow> real \<Rightarrow> real \<Rightarrow> real \<times> real" where
  "plotToCanvas v plot_x plot_y =
     (let plot_x_range = x_max (bounds v) - x_min (bounds v);
          plot_y_range = y_max (bounds v) - y_min (bounds v);
          l = plotToCanvas_layout v;
          canvas_x = ((plot_x - x_min (bounds v)) / plot_x_range) * effective_width l
                     + canvas_padding v + x_offset l;
          canvas_y = canvas_padding v + y_offset l
                     + (1 - (plot_y - y_min (bounds v)) / plot_y_range) * effective_height l
      in (canvas_x, canvas_y))"

text \<open>The editor as its constructor leaves it, on a canvas of 800 by 600 pixels.\<close>

definition default_view :: view where
  "default_view =
     \<lparr>bounds = \<lparr>x_min = -10, x_max = 10, y_min = -10, y_max = 10\<rparr>,
      canvas_padding = 60, plot_width = 800 - 2 * 60, plot_height = 600 - 2 * 60,
      aspect_ratio = 1\<rparr>"

section \<open>Scene, commands and history\<close>

text \<open>
  JavaScript objects are shared by reference: the object list, the selection, the drag
  session and every command point to the same mutable objects. The model keeps them in a
  store, \<open>heap\<close>, and passes references. \<open>next_ref\<close> is the allocator of the model.
  The calls that only repaint the canvases or rewrite the page (\<open>redraw\<close>,
  \<open>updateObjectList\<close>, \<open>updatePropertiesPanel\<close>, \<open>updateUndoRedoButtons\<close>) read the
  scene and the history without changing them; they are taken to return and are left
  out of the commands.
\<close>

type_synonym ref = nat

text \<open>
  The three object literals \<open>getObjectCoordinates\<close> returns: \<open>{x, y}\<close>,
  \<open>{x1, y1, x2, y2}\<close> and \<open>{}\<close>.
\<close>

datatype coords =
    CoordsXY jsval jsval
  | CoordsX1Y1X2Y2 jsval jsval jsval jsval
  | CoordsEmpty

text \<open>Reading a property of such a literal.\<close>

fun coords_prop :: "coords \<Rightarrow> string \<Rightarrow> jsval" where
  "coords_prop (CoordsXY x y) k =
     (if k = ''x'' then x else if k = ''y'' then y else JUndefined)"
| "coords_prop (CoordsX1Y1X2Y2 x1 y1 x2 y2) k =
     (if k = ''x1'' then x1 else if k = ''y1'' then y1
      else if k = ''x2'' then x2 else if k = ''y2'' then y2 else JUndefined)"
| "coords_prop CoordsEmpty k = JUndefined"

text \<open>
  \<open>JSON.stringify\<close> of such a literal prints its properties in order and skips those whose
  value is \<open>undefined\<close>. The text is represented by the list of the pairs it prints; over
  the modelled values two texts are equal exactly when these lists are.
\<close>

fun JSON_stringify :: "coords \<Rightarrow> (string \<times> jsval) list" where
  "JSON_stringify (CoordsXY x y) =
     filter (\<lambda>kv. snd kv \<noteq> JUndefined) [(''x'', x), (''y'', y)]"
| "JSON_stringify (CoordsX1Y1X2Y2 x1 y1 x2 y2) =
     filter (\<lambda>kv. snd kv \<noteq> JUndefined) [(''x1'', x1), (''y1'', y1), (''x2'', x2), (''y2'', y2)]"
| "JSON_stringify CoordsEmpty = []"

text \<open>
  The five command classes. A command keeps a reference to its object; the delete command
  also keeps the index computed by its constructor, the clear command the copied list and
  the selection.
\<close>

datatype command =
    AddObjectCommand ref
  | DeleteObjectCommand ref int
  | ModifyObjectCommand ref string jsval jsval
  | MoveObjectCommand ref coords coords
  | ClearPlotCommand "ref list" "ref option"

record dragging_state =
  is_dragging :: bool
  dragged_object :: "ref option"
  drag_start_mouse :: "(real \<times> real) option"
  drag_start_coords :: "(real \<times> real) option"
  original_coords :: "coords option"

record editor =
  heap :: "ref \<Rightarrow> jsobj"
  next_ref :: ref
  plot_objects :: "ref list"
  selected_object :: "ref option"
  command_history :: "command list"
  current_command_index :: int
  max_history_size :: int
  dragging :: dragging_state

datatype error = TypeError | IndexSizeError

subsection \<open>Array operations\<close>

text \<open>\<open>xs.findIndex(P)\<close>: the first index whose element satisfies \<open>P\<close>, or \<open>-1\<close>.\<close>

fun findIndex_from :: "('a \<Rightarrow> bool) \<Rightarrow> 'a list \<Rightarrow> int \<Rightarrow> int" where
  "findIndex_from P [] i = -1"
| "findIndex_from P (x # xs) i = (if P x then i else findIndex_from P xs (i + 1))"

definition findIndex :: "('a \<Rightarrow> bool) \<Rightarrow> 'a list \<Rightarrow> int" where
  "findIndex P xs = findIndex_from P xs 0"

text \<open>
  The start position of \<open>splice\<close> and the end position of \<open>slice\<close>: a negative index
  counts from the end, and the result is clamped to the array.
\<close>

definition relative_index :: "int \<Rightarrow> 'a list \<Rightarrow> nat" where
  "relative_index i xs =
     (let n = int (length xs) in nat (if i < 0 then max (n + i) 0 else min i n))"

text \<open>\<open>xs.splice(start, 1)\<close>\<close>

definition splice_remove :: "int \<Rightarrow> 'a list \<Rightarrow> 'a list" where
  "splice_remove start xs =
     (let k = relative_index start xs in take k xs @ drop (Suc k) xs)"

text \<open>\<open>xs.splice(start, 0, x)\<close>\<close>

definition splice_insert :: "int \<Rightarrow> 'a \<Rightarrow> 'a list \<Rightarrow> 'a list" where
  "splice_insert start x xs =
     (let k = relative_index start xs in take k xs @ [x] @ drop k xs)"

text \<open>\<open>xs.slice(0, end)\<close>\<close>

definition slice_to :: "int \<Rightarrow> 'a list \<Rightarrow> 'a list" where
  "slice_to end xs = take (relative_index end xs) xs"

subsection \<open>Object coordinates\<close>

definition getObjectCoordinates :: "jsobj \<Rightarrow> coords" where
  "getObjectCoordinates obj =
     (if obj ''type'' = JStr ''point'' \<or> obj ''type'' = JStr ''text''
      then CoordsXY (obj ''x'') (obj ''y'')
      else if obj ''type'' = JStr ''line'' \<or> obj ''type'' = JStr ''area''
              \<or> obj ''type'' = JStr ''brace''
      then CoordsX1Y1X2Y2 (obj ''x1'') (obj ''y1'') (obj ''x2'') (obj ''y2'')
      else CoordsEmpty)"

definition setObjectCoordinates :: "jsobj \<Rightarrow> coords \<Rightarrow> jsobj" where
  "setObjectCoordinates obj c =
     (if obj ''type'' = JStr ''point'' \<or> obj ''type'' = JStr ''text''
      then obj(''x'' := coords_prop c ''x'', ''y'' := coords_prop c ''y'')
      else if obj ''type'' = JStr ''line'' \<or> obj ''type'' = JStr ''area''
              \<or> obj ''type'' = JStr ''brace''
      then obj(''x1'' := coords_prop c ''x1'', ''y1'' := coords_prop c ''y1'',
               ''x2'' := coords_prop c ''x2'', ''y2'' := coords_prop c ''y2'')
      else obj)"

subsection \<open>The commands\<close>

definition selectObject :: "ref option \<Rightarrow> editor \<Rightarrow> editor" where
  "selectObject obj s = s\<lparr>selected_object := obj\<rparr>"

text \<open>The constructors that read the editor.\<close>

definition new_DeleteObjectCommand :: "editor \<Rightarrow> ref \<Rightarrow> command" where
  "new_DeleteObjectCommand s object =
     DeleteObjectCommand object
       (findIndex (\<lambda>obj. heap s obj ''id'' = heap s object ''id'') (plot_objects s))"

definition new_ClearPlotCommand :: "editor \<Rightarrow> command" where
  "new_ClearPlotCommand s = ClearPlotCommand (plot_objects s) (selected_object s)"

fun command_execute :: "command \<Rightarrow> editor \<Rightarrow> editor" where
  "command_execute (AddObjectCommand object) s =
     selectObject (Some object) (s\<lparr>plot_objects := plot_objects s @ [object]\<rparr>)"
| "command_execute (DeleteObjectCommand object object_index) s =
     (if object_index \<noteq> -1
      then s\<lparr>plot_objects := splice_remove object_index (plot_objects s),
             selected_object := None\<rparr>
      else s)"
| "command_execute (ModifyObjectCommand object property old_value new_value) s =
     s\<lparr>heap := (heap s)(object := (heap s object)(property := new_value))\<rparr>"
| "command_execute (MoveObjectCommand object old_coords new_coords) s =
     s\<lparr>heap := (heap s)(object := setObjectCoordinates (heap s object) new_coords)\<rparr>"
| "command_execute (ClearPlotCommand saved_objects saved_selection) s =
     s\<lparr>plot_objects := [], selected_object := None\<rparr>"

fun command_undo :: "command \<Rightarrow> editor \<Rightarrow> editor" where
  "command_undo (AddObjectCommand object) s =
     (let index = findIndex (\<lambda>obj. heap s obj ''id'' = heap s object ''id'') (plot_objects s)
      in if index \<noteq> -1
         then s\<lparr>plot_objects := splice_remove index (plot_objects s), selected_object := None\<rparr>
         else s)"
| "command_undo (DeleteObjectCommand object object_index) s =
     selectObject (Some object)
       (s\<lparr>plot_objects := splice_insert object_index object (plot_objects s)\<rparr>)"
| "command_undo (ModifyObjectCommand object property old_value new_value) s =
     s\<lparr>heap := (heap s)(object := (heap s object)(property := old_value))\<rparr>"
| "command_undo (MoveObjectCommand object old_coords new_coords) s =
     s\<lparr>heap := (heap s)(object := setObjectCoordinates (heap s object) old_coords)\<rparr>"
| "command_undo (ClearPlotCommand saved_objects saved_selection) s =
     s\<lparr>plot_objects := saved_objects, selected_object := saved_selection\<rparr>"

subsection \<open>History\<close>

text \<open>
  The bookkeeping shared by \<open>executeCommand\<close> and \<open>stopDragging\<close>: drop the commands
  after the cursor, append, advance the cursor, and evict the oldest command when the
  history is longer than \<open>max_history_size\<close>.
\<close>

definition executeCommand :: "command \<Rightarrow> editor \<Rightarrow> editor" where
  "executeCommand command s =
     (let s1 = s\<lparr>command_history := slice_to (current_command_index s + 1) (command_history s)\<rparr>;
          s2 = command_execute command s1;
          s3 = s2\<lparr>command_history := command_history s2 @ [command],
                  current_command_index := current_command_index s2 + 1\<rparr>
      in if int (length (command_history s3)) > max_history_size s3
         then s3\<lparr>command_history := tl (command_history s3),
                 current_command_index := current_command_index s3 - 1\<rparr>
         else s3)"

text \<open>
  Reading the history outside its range yields \<open>undefined\<close>, and calling a method on it
  throws.
\<close>

definition undo :: "editor \<Rightarrow> error + editor" where
  "undo s =
     (if current_command_index s \<ge> 0
      then (if current_command_index s < int (length (command_history s))
            then Inr ((command_undo (command_history s ! nat (current_command_index s)) s)
                       \<lparr>current_command_index := current_command_index s - 1\<rparr>)
            else Inl TypeError)
      else Inr s)"



text \<open>The editor as its constructor leaves it.\<close>

definition new_PlotEditor :: editor where
  "new_PlotEditor =
     \<lparr>heap = (\<lambda>_. empty_obj), next_ref = 0, plot_objects = [], selected_object = None,
      command_history = [], current_command_index = -1, max_history_size = 50,
      dragging = \<lparr>is_dragging = False, dragged_object = None, drag_start_mouse = None,
                  drag_start_coords = None, original_coords = None\<rparr>\<rparr>"

definition history_ok :: "editor \<Rightarrow> bool" where
  "history_ok s \<longleftrightarrow>
     -1 \<le> current_command_index s
     \<and> current_command_index s \<le> int (length (command_history s)) - 1
     \<and> int (length (command_history s)) \<le> max_history_size s"

subsection \<open>Creating objects\<close>

text \<open>
  \<open>generateId\<close> reads the clock and a random number, so the new id is an argument.
  \<open>start_coords\<close> and \<open>end_coords\<close> are \<open>{x, y}\<close> pairs of numbers.
\<close>

definition addArea :: "string \<Rightarrow> real \<times> real \<Rightarrow> real \<times> real \<Rightarrow> editor \<Rightarrow> editor" where
  "addArea new_id start_coords end_coords s =
     (let area_object = empty_obj
            (''type'' := JStr ''area'',
             ''id'' := JStr new_id,
             ''x1'' := JNum (min (fst start_coords) (fst end_coords)),
             ''y1'' := JNum (min (snd start_coords) (snd end_coords)),
             ''x2'' := JNum (max (fst start_coords) (fst end_coords)),
             ''y2'' := JNum (max (snd start_coords) (snd end_coords)),
             ''fill_color'' := JStr ''#4CAF5050'',
             ''border_color'' := JStr ''#4CAF50'',
             ''z_index'' := JNum 0);
          object = next_ref s;
          command = AddObjectCommand object
      in executeCommand command
           (s\<lparr>heap := (heap s)(object := area_object), next_ref := Suc object\<rparr>))"

subsection \<open>Dragging\<close>

definition startDragging :: "ref \<Rightarrow> real \<times> real \<Rightarrow> real \<times> real \<Rightarrow> editor \<Rightarrow> editor" where
  "startDragging obj mouse_coords plot_coords s =
     s\<lparr>dragging :=
         \<lparr>is_dragging = True, dragged_object = Some obj,
          drag_start_mouse = Some mouse_coords, drag_start_coords = Some plot_coords,
          original_coords = Some (getObjectCoordinates (heap s obj))\<rparr>\<rparr>"

definition stopDragging :: "editor \<Rightarrow> editor" where
  "stopDragging s =
     (let s1 =
        (case (is_dragging (dragging s), dragged_object (dragging s),
               original_coords (dragging s)) of
           (True, Some obj, Some original) \<Rightarrow>
             (let current_coords = getObjectCoordinates (heap s obj);
                  moved = (JSON_stringify original \<noteq> JSON_stringify current_coords)
              in if moved
                 then (let command = MoveObjectCommand obj original current_coords;
                           s3 = s\<lparr>command_history :=
                                     slice_to (current_command_index s + 1) (command_history s)
                                       @ [command],
                                   current_command_index := current_command_index s + 1\<rparr>
                       in if int (length (command_history s3)) > max_history_size s3
                          then s3\<lparr>command_history := tl (command_history s3),
                                  current_command_index := current_command_index s3 - 1\<rparr>
                          else s3)
                 else s)
         | _ \<Rightarrow> s)
      in s1\<lparr>dragging :=
              \<lparr>is_dragging = False, dragged_object = None, drag_start_mouse = None,
               drag_start_coords = None, original_coords = None\<rparr>\<rparr>)"

subsection \<open>Invariants of the scene\<close>

text \<open>
  The selection, when present, is one of the listed objects; the ids of the listed objects
  are pairwise different.
\<close>

definition scene_ok :: "editor \<Rightarrow> bool" where
  "scene_ok s \<longleftrightarrow>
     (case selected_object s of None \<Rightarrow> True | Some obj \<Rightarrow> obj \<in> set (plot_objects s))"

definition ids_unique :: "editor \<Rightarrow> bool" where
  "ids_unique s \<longleftrightarrow> distinct (map (\<lambda>obj. heap s obj ''id'') (plot_objects s))"

text \<open>
  The commands the constructors build in the state \<open>s0\<close>: the delete command carries the
  index found in \<open>s0\<close>, the clear command the list and the selection of \<open>s0\<close>.
\<close>

fun constructed_in :: "editor \<Rightarrow> command \<Rightarrow> bool" where
  "constructed_in s0 (AddObjectCommand object) = True"
| "constructed_in s0 (DeleteObjectCommand object object_index) =
     (DeleteObjectCommand object object_index = new_DeleteObjectCommand s0 object)"
| "constructed_in s0 (ModifyObjectCommand object property old_value new_value) = True"
| "constructed_in s0 (MoveObjectCommand object old_coords new_coords) = True"
| "constructed_in s0 (ClearPlotCommand saved_objects saved_selection) =
     (ClearPlotCommand saved_objects saved_selection = new_ClearPlotCommand s0)"


subsection \<open>Example states\<close>


definition example_point :: "real \<Rightarrow> real \<Rightarrow> jsobj" where
  "example_point px py =
     empty_obj(''type'' := JStr ''point'', ''id'' := JStr ''obj_1'',
               ''x'' := JNum px, ''y'' := JNum py)"

text \<open>
  A point at the origin is picked up; at pointer-up the live mutation of the drag has
  moved it to \<open>(3, 4)\<close>.
\<close>

definition pointer_down :: editor where
  "pointer_down =
     new_PlotEditor\<lparr>heap := (heap new_PlotEditor)(0 := example_point 0 0),
                    next_ref := 1, plot_objects := [0]\<rparr>"

definition pointer_up :: editor where
  "pointer_up =
     (startDragging 0 (400, 300) (0, 0) pointer_down)
       \<lparr>heap := (heap pointer_down)(0 := example_point 3 4)\<rparr>"

definition three_objects :: editor where
  "three_objects =
     new_PlotEditor
       \<lparr>heap := (heap new_PlotEditor)
            (0 := empty_obj(''type'' := JStr ''point'', ''id'' := JStr ''obj_a''),
             1 := empty_obj(''type'' := JStr ''line'', ''id'' := JStr ''obj_b''),
             2 := empty_obj(''type'' := JStr ''area'', ''id'' := JStr ''obj_c'')),
        next_ref := 3, plot_objects := [0, 1, 2], selected_object := Some 0\<rparr>"

section \<open>Picking\<close>

text \<open>
  A picking colour is the string \<open>rgb(r,g,b)\<close>; it is represented by the three numbers
  it prints. Object ids are strings of 8-bit characters, as \<open>generateId\<close> produces them.
\<close>

type_synonym rgb = "int \<times> int \<times> int"

definition isBackgroundColor :: "rgb \<Rightarrow> bool" where
  "isBackgroundColor color \<longleftrightarrow>
     color \<in> set [(0, 0, 0), (255, 255, 255), (240, 240, 240), (248, 249, 250)]"

text \<open>
  One round of the hash loop, \<open>((hash << 5) - hash + code) & 0xffffffff\<close>: the result is
  a signed 32-bit integer, and the arithmetic before the mask is exact, so the round is
  arithmetic modulo \<open>2^32\<close>.
\<close>

definition hash_step :: "char \<Rightarrow> 32 word \<Rightarrow> 32 word" where
  "hash_step ch hash = push_bit 5 hash - hash + word_of_nat (of_char ch)"

definition enhance_contrast :: "int \<Rightarrow> int" where
  "enhance_contrast v =
     (if v < 85 then max 0 (v - 30)
      else if v > 170 then min 255 (v + 30)
      else if v < 128 then 30 else 225)"

text \<open>
  With an empty id the loop does not run and \<open>hash\<close> stays \<open>salt * 31\<close>, unmasked.
\<close>

definition generateUniqueColor :: "string \<Rightarrow> nat \<Rightarrow> rgb" where
  "generateUniqueColor object_id salt =
     (let hash = (if object_id = [] then int salt * 31
                  else sint (fold hash_step object_id (word_of_int (int salt * 31))));
          hash = \<bar>hash\<bar>;
          r = (hash * 73 + int salt * 17) mod 256;
          g = (hash * 151 + int salt * 37) mod 256;
          b = (hash * 233 + int salt * 59) mod 256
      in (enhance_contrast r, enhance_contrast g, enhance_contrast b))"

text \<open>
  The part of the editor that picking uses: the two maps, the counter of the sequential
  allocator and the pixels of the picking canvas. A cleared pixel reads \<open>rgb(0,0,0)\<close>.
\<close>

type_synonym pixel = "int \<times> int"

record picking =
  object_color_map :: "rgb \<rightharpoonup> string"
  id_color_map :: "string \<rightharpoonup> rgb"
  next_color_id :: nat
  picking_canvas :: "pixel \<Rightarrow> rgb"

definition new_picking :: picking where
  "new_picking =
     \<lparr>object_color_map = Map.empty, id_color_map = Map.empty, next_color_id = 1,
      picking_canvas = (\<lambda>_. (0, 0, 0))\<rparr>"

definition generateSequentialColor :: "picking \<Rightarrow> rgb \<times> picking" where
  "generateSequentialColor s =
     (let color_id = next_color_id s;
          r = int (take_bit 8 color_id);
          g = int (take_bit 8 (drop_bit 8 color_id));
          b = int (take_bit 8 (drop_bit 16 color_id))
      in ((r, g, b), s\<lparr>next_color_id := color_id + 1\<rparr>))"

text \<open>The retry loop of \<open>getObjectColor\<close>; \<open>max_attempts\<close> is 1000.\<close>

function resolve_collision :: "string \<Rightarrow> (rgb \<rightharpoonup> string) \<Rightarrow> rgb \<Rightarrow> nat \<Rightarrow> rgb \<times> nat" where
  "resolve_collision object_id m color collision_attempts =
     (if (m color \<noteq> None \<or> isBackgroundColor color) \<and> collision_attempts < 1000
      then resolve_collision object_id m
             (generateUniqueColor object_id (collision_attempts + 1)) (collision_attempts + 1)
      else (color, collision_attempts))"
  by pat_completeness auto
termination
  by (relation "measure (\<lambda>(object_id, m, color, collision_attempts). 1000 - collision_attempts)")
    auto

declare resolve_collision.simps [simp del]

definition getObjectColor :: "string \<Rightarrow> picking \<Rightarrow> rgb \<times> picking" where
  "getObjectColor object_id s =
     (case id_color_map s object_id of
        Some color \<Rightarrow> (color, s)
      | None \<Rightarrow>
         (case resolve_collision object_id (object_color_map s)
                 (generateUniqueColor object_id 0) 0 of
            (color, collision_attempts) \<Rightarrow>
              (case (if collision_attempts \<ge> 1000 then generateSequentialColor s
                     else (color, s)) of
                 (color, s1) \<Rightarrow>
                   (color,
                    s1\<lparr>id_color_map := (id_color_map s1)(object_id \<mapsto> color),
                       object_color_map := (object_color_map s1)(color \<mapsto> object_id)\<rparr>))))"

text \<open>\<open>getObjectColor\<close> called for each id of a list, in order.\<close>

definition assign_colors :: "string list \<Rightarrow> picking \<Rightarrow> picking" where
  "assign_colors ids s = fold (\<lambda>object_id s. snd (getObjectColor object_id s)) ids s"

text \<open>
  The ids made of \<open>n\<close> blocks, each \<open>Aa\<close> or \<open>BB\<close>. The two blocks hash alike, so all
  these ids have the same candidate colours.
\<close>

primrec block_ids :: "nat \<Rightarrow> string list" where
  "block_ids 0 = [[]]"
| "block_ids (Suc n) = map ((@) ''Aa'') (block_ids n) @ map ((@) ''BB'') (block_ids n)"

subsection \<open>The picking canvas\<close>

text \<open>
  The browser decides which pixels a fill or a stroke paints. The two functions below are
  given the region the first pass fills for an object (\<open>hit_region\<close>, the path built by
  \<open>drawPickingBBox\<close>) and the region the second pass paints (\<open>shape_region\<close>, drawn by
  \<open>drawPickingObject\<close>); a painted pixel takes exactly the fill colour, and the drawing
  calls are taken to return.
\<close>

definition paint :: "(pixel \<Rightarrow> bool) \<Rightarrow> rgb \<Rightarrow> picking \<Rightarrow> picking" where
  "paint region color s =
     s\<lparr>picking_canvas := (\<lambda>p. if region p then color else picking_canvas s p)\<rparr>"



definition drawPickingBBox :: "(jsobj \<Rightarrow> pixel \<Rightarrow> bool) \<Rightarrow> jsobj \<Rightarrow> rgb \<Rightarrow> picking \<Rightarrow> picking" where
  "drawPickingBBox hit_region obj color s =
     (if obj ''type'' \<in> set [JStr ''point'', JStr ''text'', JStr ''line'', JStr ''area'',
                              JStr ''brace'']
      then paint (hit_region obj) color s
      else s)"

definition drawPickingObject :: "(jsobj \<Rightarrow> pixel \<Rightarrow> bool) \<Rightarrow> jsobj \<Rightarrow> rgb \<Rightarrow> picking \<Rightarrow> picking" where
  "drawPickingObject shape_region obj color s =
     (if obj ''type'' \<in> set [JStr ''point'', JStr ''line'', JStr ''area'', JStr ''text'',
                              JStr ''brace'', JStr ''function'']
      then paint (shape_region obj) color s
      else s)"





subsection \<open>Colour keys\<close>

text \<open>The colour the sequential allocator returns when its counter is \<open>n\<close>.\<close>

definition sequential_color :: "nat \<Rightarrow> rgb" where
  "sequential_color n =
     (int (take_bit 8 n), int (take_bit 8 (drop_bit 8 n)), int (take_bit 8 (drop_bit 16 n)))"

text \<open>Two different ids have been given the same colour.\<close>

definition collided :: "picking \<Rightarrow> bool" where
  "collided s \<longleftrightarrow>
     (\<exists>x y c. x \<noteq> y \<and> id_color_map s x = Some c \<and> id_color_map s y = Some c)"

text \<open>
  The colours the retry loop can return for an id whose candidate at salt \<open>k\<close> is
  \<open>cand k\<close>.
\<close>

definition candidates :: "(nat \<Rightarrow> rgb) \<Rightarrow> rgb set" where
  "candidates cand = {c \<in> cand ` {..<1000}. \<not> isBackgroundColor c}"

text \<open>
  What holds after \<open>n\<close> new ids with the same candidates: either two ids share a colour, or
  the sequential counter has not passed \<open>kstar\<close> and every id so far took a fresh
  candidate or advanced the counter.
\<close>

definition color_invariant :: "(nat \<Rightarrow> rgb) \<Rightarrow> nat \<Rightarrow> nat \<Rightarrow> picking \<Rightarrow> bool" where
  "color_invariant cand kstar n s \<longleftrightarrow>
     dom (object_color_map s) = ran (id_color_map s)
     \<and> (collided s
        \<or> (1 \<le> next_color_id s \<and> next_color_id s \<le> kstar
            \<and> (1 < next_color_id s \<longrightarrow> candidates cand \<subseteq> dom (object_color_map s))
            \<and> n + 1 \<le> card (candidates cand \<inter> dom (object_color_map s)) + next_color_id s))"










subsection \<open>Ids with common candidates\<close>








subsection \<open>Example objects\<close>












section \<open>Brace geometry\<close>

text \<open>
  The calls a drawing function makes on the canvas context, in order. A path call with a
  NaN argument is dropped by the canvas, so it leaves no entry; \<open>arc\<close> with a negative radius
  throws \<open>IndexSizeError\<close>.
\<close>

datatype ctx_op =
    SetStrokeStyle string
  | SetLineWidth real
  | BeginPath
  | MoveTo real real
  | LineTo real real
  | QuadraticCurveTo real real real real
  | Arc real real real real real bool
  | Stroke

definition ctx_arc :: "real \<times> real \<Rightarrow> real \<Rightarrow> real \<Rightarrow> real \<Rightarrow> bool \<Rightarrow> error + ctx_op list" where
  "ctx_arc c radius startAngle endAngle counterclockwise =
     (if radius < 0 then Inl IndexSizeError
      else Inr [Arc (fst c) (snd c) radius startAngle endAngle counterclockwise])"

text \<open>A stroke paints something only if the path has a segment.\<close>

fun is_segment :: "ctx_op \<Rightarrow> bool" where
  "is_segment (LineTo _ _) = True"
| "is_segment (QuadraticCurveTo _ _ _ _) = True"
| "is_segment (Arc _ _ _ _ _ _) = True"
| "is_segment _ = False"

definition renders_nothing :: "ctx_op list \<Rightarrow> bool" where
  "renders_nothing ops = (filter is_segment ops = [])"

text \<open>
  The properties of a brace object the drawing functions read. \<open>elevation\<close> and \<open>width\<close>
  are numbers or absent.
\<close>

record brace =
  x1 :: real
  y1 :: real
  x2 :: real
  y2 :: real
  color :: string
  mirrored :: bool
  style :: string
  elevation :: "real option"
  width :: "real option"

text \<open>\<open>a || b\<close> and the truth value of a number that may be absent: zero and \<open>undefined\<close> are falsy.\<close>

definition truthy :: "real option \<Rightarrow> bool" where
  "truthy a = (case a of Some e \<Rightarrow> e \<noteq> 0 | None \<Rightarrow> False)"

definition js_or :: "real option \<Rightarrow> real option \<Rightarrow> real option" where
  "js_or a b = (if truthy a then a else b)"

text \<open>\<open>Math.atan2(y, x)\<close>, in \<open>(-\<pi>, \<pi>]\<close>, and \<open>0\<close> at the origin.\<close>

definition atan2 :: "real \<Rightarrow> real \<Rightarrow> real" where
  "atan2 y x = Arg (Complex x y)"

text \<open>
  \<open>drawSmoothBrace\<close> has no test on \<open>length\<close>. With \<open>length = 0\<close> both \<open>dx\<close> and \<open>dy\<close> are
  zero, the quotients are NaN and the two curve calls are dropped.
\<close>

definition drawSmoothBrace :: "view \<Rightarrow> brace \<Rightarrow> ctx_op list" where
  "drawSmoothBrace v brace =
     (let start_coords = plotToCanvas v (x1 brace) (y1 brace);
          end_coords = plotToCanvas v (x2 brace) (y2 brace);
          dx = fst end_coords - fst start_coords;
          dy = snd end_coords - snd start_coords;
          length = sqrt (dx * dx + dy * dy);
          brace_elevation =
            (if truthy (js_or (elevation brace) (width brace))
             then the (js_or (elevation brace) (width brace))
             else min 20 (length * 0.125));
          mirror_multiplier = (if mirrored brace then -1 else 1);
          perpX = - dy / length * brace_elevation * mirror_multiplier;
          perpY = dx / length * brace_elevation * mirror_multiplier;
          midX = (fst start_coords + fst end_coords) / 2;
          midY = (snd start_coords + snd end_coords) / 2
      in [SetStrokeStyle (color brace), SetLineWidth 2, BeginPath,
          MoveTo (fst start_coords) (snd start_coords)]
         @ (if length = 0 then []
            else [QuadraticCurveTo (midX + perpX) (midY + perpY) midX midY,
                  QuadraticCurveTo (midX + perpX) (midY + perpY)
                    (fst end_coords) (snd end_coords)])
         @ [Stroke])"

definition drawTraditionalBrace :: "view \<Rightarrow> brace \<Rightarrow> ctx_op list" where
  "drawTraditionalBrace v brace =
     (let start_coords = plotToCanvas v (x1 brace) (y1 brace);
          end_coords = plotToCanvas v (x2 brace) (y2 brace);
          dx = fst end_coords - fst start_coords;
          dy = snd end_coords - snd start_coords;
          length = sqrt (dx * dx + dy * dy)
      in if length < 20 then []
         else
          (let brace_elevation =
                 (if truthy (js_or (elevation brace) (width brace))
                  then the (js_or (elevation brace) (width brace))
                  else min (length * 0.125) 20);
               mirror_multiplier = (if mirrored brace then -1 else 1);
               alongUnitX = dx / length;
               alongUnitY = dy / length;
               perpUnitX = - dy / length * mirror_multiplier;
               perpUnitY = dx / length * mirror_multiplier;
               radius = brace_elevation / 2;
               quarter_distance = length / 4;
               p1_pos = radius;
               p2_pos = quarter_distance;
               tip_pos = length / 2;
               p3_pos = length - quarter_distance;
               p4_pos = length - radius;
               sx = fst start_coords;
               sy = snd start_coords
           in [SetStrokeStyle (color brace), SetLineWidth 2, BeginPath,
               MoveTo sx sy,
               QuadraticCurveTo (sx + perpUnitX * radius) (sy + perpUnitY * radius)
                 (sx + alongUnitX * p1_pos + perpUnitX * radius)
                 (sy + alongUnitY * p1_pos + perpUnitY * radius),
               LineTo (sx + alongUnitX * p2_pos + perpUnitX * radius)
                 (sy + alongUnitY * p2_pos + perpUnitY * radius),
               QuadraticCurveTo (sx + alongUnitX * tip_pos + perpUnitX * radius)
                 (sy + alongUnitY * tip_pos + perpUnitY * radius)
                 (sx + alongUnitX * tip_pos + perpUnitX * brace_elevation)
                 (sy + alongUnitY * tip_pos + perpUnitY * brace_elevation),
               QuadraticCurveTo (sx + alongUnitX * tip_pos + perpUnitX * radius)
                 (sy + alongUnitY * tip_pos + perpUnitY * radius)
                 (sx + alongUnitX * p3_pos + perpUnitX * radius)
                 (sy + alongUnitY * p3_pos + perpUnitY * radius),
               LineTo (sx + alongUnitX * p4_pos + perpUnitX * radius)
                 (sy + alongUnitY * p4_pos + perpUnitY * radius),
               QuadraticCurveTo (fst end_coords + perpUnitX * radius)
                 (snd end_coords + perpUnitY * radius)
                 (fst end_coords) (snd end_coords),
               Stroke]))"

text \<open>The two loops of \<open>ccwForMinorArc\<close> that bring the angle difference into \<open>(-\<pi>, \<pi>]\<close>.\<close>

function raise_angle :: "real \<Rightarrow> real" where
  "raise_angle d = (if d \<le> - pi then raise_angle (d + 2 * pi) else d)"
  by pat_completeness auto
termination
proof (relation "measure (\<lambda>d. nat (\<lceil>(- pi - d) / (2 * pi)\<rceil> + 1))")
  show "wf (measure (\<lambda>d. nat (\<lceil>(- pi - d) / (2 * pi)\<rceil> + 1)))"
    by simp
next
  fix d :: real
  assume d: "d \<le> - pi"
  have "(- pi - (d + 2 * pi)) / (2 * pi) = (- pi - d) / (2 * pi) - 1"
    by (simp add: field_simps)
  then have c: "\<lceil>(- pi - (d + 2 * pi)) / (2 * pi)\<rceil> = \<lceil>(- pi - d) / (2 * pi)\<rceil> - 1"
    by simp
  from d have "0 \<le> (- pi - d) / (2 * pi)"
    by simp
  then have "0 \<le> \<lceil>(- pi - d) / (2 * pi)\<rceil>"
    by linarith
  with c show "(d + 2 * pi, d) \<in> measure (\<lambda>d. nat (\<lceil>(- pi - d) / (2 * pi)\<rceil> + 1))"
    by simp
qed

function lower_angle :: "real \<Rightarrow> real" where
  "lower_angle d = (if d > pi then lower_angle (d - 2 * pi) else d)"
  by pat_completeness auto
termination
proof (relation "measure (\<lambda>d. nat (\<lceil>(d - pi) / (2 * pi)\<rceil> + 1))")
  show "wf (measure (\<lambda>d. nat (\<lceil>(d - pi) / (2 * pi)\<rceil> + 1)))"
    by simp
next
  fix d :: real
  assume d: "pi < d"
  have "(d - 2 * pi - pi) / (2 * pi) = (d - pi) / (2 * pi) - 1"
    by (simp add: field_simps)
  then have c: "\<lceil>(d - 2 * pi - pi) / (2 * pi)\<rceil> = \<lceil>(d - pi) / (2 * pi)\<rceil> - 1"
    by simp
  from d have "0 \<le> (d - pi) / (2 * pi)"
    by simp
  then have "0 \<le> \<lceil>(d - pi) / (2 * pi)\<rceil>"
    by linarith
  with c show "(d - 2 * pi, d) \<in> measure (\<lambda>d. nat (\<lceil>(d - pi) / (2 * pi)\<rceil> + 1))"
    by simp
qed

declare raise_angle.simps [simp del] lower_angle.simps [simp del]

definition ccwForMinorArc :: "real \<Rightarrow> real \<Rightarrow> bool" where
  "ccwForMinorArc a0 a1 = (lower_angle (raise_angle (a1 - a0)) < 0)"

definition angle :: "real \<times> real \<Rightarrow> real \<times> real \<Rightarrow> real" where
  "angle c p = atan2 (snd p - snd c) (fst p - fst c)"

text \<open>
  One half of the 45-degree brace, from \<open>S\<close> towards the midpoint of \<open>S\<close> and \<open>E\<close>.
  \<open>pt s p\<close> is the point \<open>s\<close> along the brace line and \<open>p\<close> across it.
\<close>

definition pt :: "real \<times> real \<Rightarrow> real \<times> real \<Rightarrow> real \<times> real \<Rightarrow> real \<Rightarrow> real \<Rightarrow> real \<times> real" where
  "pt S along perp s p =
     (fst S + fst along * s + fst perp * p, snd S + snd along * s + snd perp * p)"

definition draw45DegBraceHalf ::
    "real \<times> real \<Rightarrow> real \<times> real \<Rightarrow> real \<Rightarrow> brace \<Rightarrow> error + ctx_op list" where
  "draw45DegBraceHalf S E mirrorMultiplier brace =
     (let dx = fst E - fst S;
          dy = snd E - snd S;
          length = sqrt (dx * dx + dy * dy)
      in if length < 20 then Inr []
         else
          (let mirror_multiplier = mirrorMultiplier;
               along = (dx / length, dy / length);
               perp = (- dy / length * mirror_multiplier, dx / length * mirror_multiplier);
               innerR =
                 (if truthy (js_or (elevation brace) (width brace))
                  then min (the (js_or (elevation brace) (width brace))) (length / 6)
                  else length / 6);
               outerR = innerR * sqrt 2;
               segLen = max 0 (length / 2 - 2 * innerR);
               C1 = pt S along perp innerR innerR;
               P1 = pt S along perp innerR (innerR - outerR);
               P2 = pt S along perp (innerR + segLen) (innerR - outerR);
               C2 = pt S along perp (innerR + segLen) (- outerR);
               PM = pt S along perp (length / 2) (- outerR)
           in case ctx_arc C1 outerR (angle C1 S) (angle C1 P1)
                     (ccwForMinorArc (angle C1 S) (angle C1 P1)) of
                Inl e \<Rightarrow> Inl e
              | Inr outer_arc \<Rightarrow>
                 (case ctx_arc C2 innerR (angle C2 P2) (angle C2 PM)
                         (ccwForMinorArc (angle C2 P2) (angle C2 PM)) of
                    Inl e \<Rightarrow> Inl e
                  | Inr inner_arc \<Rightarrow>
                      Inr ([MoveTo (fst S) (snd S)] @ outer_arc
                           @ [LineTo (fst P2) (snd P2)] @ inner_arc))))"

definition draw45DegBrace :: "view \<Rightarrow> brace \<Rightarrow> error + ctx_op list" where
  "draw45DegBrace v brace =
     (let start_coords = plotToCanvas v (x1 brace) (y1 brace);
          end_coords = plotToCanvas v (x2 brace) (y2 brace);
          mm = (if mirrored brace then -1 else 1)
      in case draw45DegBraceHalf start_coords end_coords (- mm) brace of
           Inl e \<Rightarrow> Inl e
         | Inr first_half \<Rightarrow>
            (case draw45DegBraceHalf end_coords start_coords mm brace of
               Inl e \<Rightarrow> Inl e
             | Inr second_half \<Rightarrow>
                 Inr ([SetStrokeStyle (color brace), SetLineWidth 2, BeginPath]
                      @ first_half @ second_half @ [Stroke])))"

definition drawBrace :: "view \<Rightarrow> brace \<Rightarrow> error + ctx_op list" where
  "drawBrace v brace =
     (let brace_style = (if style brace \<noteq> [] then style brace else ''45deg'')
      in if brace_style = ''traditional'' then Inr (drawTraditionalBrace v brace)
         else if brace_style = ''45deg'' then draw45DegBrace v brace
         else Inr (drawSmoothBrace v brace))"

text \<open>The distance of the two endpoints in device pixels, as the three styles compute it.\<close>

definition brace_device_length :: "view \<Rightarrow> brace \<Rightarrow> real" where
  "brace_device_length v brace =
     (let start_coords = plotToCanvas v (x1 brace) (y1 brace);
          end_coords = plotToCanvas v (x2 brace) (y2 brace);
          dx = fst end_coords - fst start_coords;
          dy = snd end_coords - snd start_coords
      in sqrt (dx * dx + dy * dy))"

text \<open>
  The geometry of an \<open>arc\<close> call: the point of the circle at an angle, and the direction
  of travel there. The canvas has its y axis pointing down; with \<open>counterclockwise\<close> false
  the angle increases along the arc.
\<close>

definition arc_point :: "real \<Rightarrow> real \<Rightarrow> real \<Rightarrow> real \<Rightarrow> real \<times> real" where
  "arc_point cx cy r a = (cx + r * cos a, cy + r * sin a)"

definition arc_direction :: "real \<Rightarrow> bool \<Rightarrow> real \<times> real" where
  "arc_direction a counterclockwise =
     (if counterclockwise then (sin a, - cos a) else (- sin a, cos a))"

text \<open>
  A half brace is smooth at its two junctions: the outer arc starts at the current point,
  the straight segment leaves the end of the outer arc in the direction the arc arrives
  with, and the inner arc starts at the end of the segment in that same direction.
\<close>

fun tangent_continuous :: "ctx_op list \<Rightarrow> bool" where
  "tangent_continuous [MoveTo sx sy, Arc c1x c1y r1 a0 a1 ccw1, LineTo p2x p2y,
                       Arc c2x c2y r2 b0 b1 ccw2] =
     (let p1 = arc_point c1x c1y r1 a1;
          lx = p2x - fst p1;
          ly = p2y - snd p1;
          len = sqrt (lx * lx + ly * ly)
      in arc_point c1x c1y r1 a0 = (sx, sy)
         \<and> 0 < len
         \<and> arc_direction a1 ccw1 = (lx / len, ly / len)
         \<and> arc_point c2x c2y r2 b0 = (p2x, p2y)
         \<and> arc_direction b0 ccw2 = (lx / len, ly / len))"
| "tangent_continuous _ = False"

text \<open>
  Example braces in the default view, where one plot unit is 24 pixels: one whose endpoints
  are 5 pixels apart, and two whose endpoints are 60 pixels apart.
\<close>

definition short_brace :: "string \<Rightarrow> brace" where
  "short_brace st =
     \<lparr>x1 = 0, y1 = 0, x2 = 1 / 8, y2 = 1 / 6, color = ''#333333'', mirrored = False,
      style = st, elevation = Some 15, width = None\<rparr>"

definition default_brace :: brace where
  "default_brace =
     \<lparr>x1 = 0, y1 = 0, x2 = 5 / 2, y2 = 0, color = ''#333333'', mirrored = False,
      style = ''45deg'', elevation = Some 15, width = None\<rparr>"

definition negative_brace :: brace where
  "negative_brace =
     \<lparr>x1 = 0, y1 = 0, x2 = 5 / 2, y2 = 0, color = ''#333333'', mirrored = False,
      style = ''45deg'', elevation = Some (- 5), width = None\<rparr>"

text \<open>A brace saved before \<open>elevation\<close> existed: it has the legacy field \<open>width\<close> only.\<close>

definition legacy_brace :: brace where
  "legacy_brace =
     \<lparr>x1 = 0, y1 = 0, x2 = 5 / 2, y2 = 0, color = ''#333333'', mirrored = False,
      style = ''45deg'', elevation = None, width = Some (- 5)\<rparr>"

section \<open>History\<close>

lemma command_execute_history [simp]:
  "command_history (command_execute c s) = command_history s"
  "current_command_index (command_execute c s) = current_command_index s"
  "max_history_size (command_execute c s) = max_history_size s"
  "dragging (command_execute c s) = dragging s"
  by (cases c; simp add: selectObject_def)+

lemma command_undo_history [simp]:
  "command_history (command_undo c s) = command_history s"
  "current_command_index (command_undo c s) = current_command_index s"
  "max_history_size (command_undo c s) = max_history_size s"
  "dragging (command_undo c s) = dragging s"
  by (cases c; simp add: selectObject_def Let_def)+

lemma slice_to_cursor:
  assumes "-1 \<le> i" and "i \<le> int (length xs) - 1"
  shows "slice_to (i + 1) xs = take (nat (i + 1)) xs"
  using assms by (simp add: slice_to_def relative_index_def Let_def min_def)

lemma executeCommand_history:
  assumes "history_ok s"
  shows "command_history (executeCommand c s) =
           (let h = take (nat (current_command_index s + 1)) (command_history s) @ [c]
            in if int (length h) > max_history_size s then tl h else h)"
    and "current_command_index (executeCommand c s) =
           int (length (command_history (executeCommand c s))) - 1"
    and "max_history_size (executeCommand c s) = max_history_size s"
    and "history_ok (executeCommand c s)"
proof -
  from assms have r: "-1 \<le> current_command_index s"
    "current_command_index s \<le> int (length (command_history s)) - 1"
    "int (length (command_history s)) \<le> max_history_size s"
    by (simp_all add: history_ok_def)
  note sl = slice_to_cursor [OF r(1,2)]
  show a: "command_history (executeCommand c s) =
           (let h = take (nat (current_command_index s + 1)) (command_history s) @ [c]
            in if int (length h) > max_history_size s then tl h else h)"
    by (simp add: executeCommand_def Let_def sl)
  show b: "current_command_index (executeCommand c s) =
           int (length (command_history (executeCommand c s))) - 1"
    using r by (auto simp add: executeCommand_def Let_def sl min_def)
  show c: "max_history_size (executeCommand c s) = max_history_size s"
    by (simp add: executeCommand_def Let_def)
  show "history_ok (executeCommand c s)"
    unfolding history_ok_def b c using r
    by (auto simp add: a Let_def min_def)
qed
















text \<open>
  C10. The object \<open>addArea\<close> appends has \<open>x1 = min\<close>, \<open>x2 = max\<close> of the two x
  coordinates and likewise for y, whatever the direction of the drag.
\<close>

theorem addArea_normalized:
  "(let s' = addArea new_id (sx, sy) (ex, ey) s;
        area = heap s' (last (plot_objects s'))
    in plot_objects s' = plot_objects s @ [next_ref s]
       \<and> area ''type'' = JStr ''area''
       \<and> area ''x1'' = JNum (min sx ex) \<and> area ''x2'' = JNum (max sx ex)
       \<and> area ''y1'' = JNum (min sy ey) \<and> area ''y2'' = JNum (max sy ey)
       \<and> min sx ex \<le> max sx ex \<and> min sy ey \<le> max sy ey)"
  by (simp add: addArea_def executeCommand_def Let_def selectObject_def min_le_iff_disj)

section \<open>Delete, selection and drag\<close>

lemma findIndex_from_first:
  assumes "\<forall>y \<in> set ys. \<not> P y" and "P x"
  shows "findIndex_from P (ys @ x # zs) i = i + int (length ys)"
  using assms by (induction ys arbitrary: i) simp_all

lemma findIndex_from_range:
  "findIndex_from P xs i = -1 \<or> (i \<le> findIndex_from P xs i \<and> findIndex_from P xs i < i + int (length xs))"
  by (induction xs arbitrary: i) (simp, force)

lemma findIndex_member:
  assumes "x \<in> set xs" and "distinct (map f xs)"
  shows "\<exists>ys zs. xs = ys @ x # zs \<and> findIndex (\<lambda>y. f y = f x) xs = int (length ys)"
proof -
  from assms(1) obtain ys zs where xs: "xs = ys @ x # zs"
    by (auto dest: split_list)
  with assms(2) have "f x \<notin> f ` set ys"
    by simp
  then have "\<forall>y \<in> set ys. f y \<noteq> f x"
    by (metis imageI)
  then have "findIndex_from (\<lambda>y. f y = f x) (ys @ x # zs) 0 = 0 + int (length ys)"
    by (intro findIndex_from_first) simp_all
  with xs show ?thesis
    by (auto simp add: findIndex_def)
qed

lemma splice_remove_at: "splice_remove (int (length ys)) (ys @ x # zs) = ys @ zs"
  by (simp add: splice_remove_def relative_index_def Let_def)

lemma splice_insert_at: "splice_insert (int (length ys)) x (ys @ zs) = ys @ x # zs"
  by (simp add: splice_insert_def relative_index_def Let_def)

lemma splice_remove_subset: "set (splice_remove i xs) \<subseteq> set xs"
  by (auto simp add: splice_remove_def Let_def dest: in_set_takeD in_set_dropD)

lemma splice_insert_member: "x \<in> set (splice_insert i x xs)"
  by (simp add: splice_insert_def Let_def)

text \<open>
  C5. For a listed object with unique ids, the delete command records the index of the
  object, \<open>execute\<close> removes the object at that index and \<open>undo\<close> puts it back there: the
  list after delete and undo is the list before.
\<close>

theorem delete_undo_restores_order:
  assumes "object \<in> set (plot_objects s)" and "ids_unique s"
  shows "(case new_DeleteObjectCommand s object of
            DeleteObjectCommand obj object_index \<Rightarrow>
              obj = object \<and> 0 \<le> object_index
              \<and> object_index < int (length (plot_objects s))
              \<and> plot_objects s ! nat object_index = object
              \<and> plot_objects (command_execute (DeleteObjectCommand obj object_index) s)
                  = take (nat object_index) (plot_objects s)
                    @ drop (Suc (nat object_index)) (plot_objects s)
              \<and> plot_objects (command_undo (DeleteObjectCommand obj object_index)
                                (command_execute (DeleteObjectCommand obj object_index) s))
                  = plot_objects s
          | _ \<Rightarrow> False)"
proof -
  from assms(2) have "distinct (map (\<lambda>obj. heap s obj ''id'') (plot_objects s))"
    by (simp add: ids_unique_def)
  from findIndex_member [OF assms(1) this] obtain ys zs where
    xs: "plot_objects s = ys @ object # zs" and
    i: "findIndex (\<lambda>obj. heap s obj ''id'' = heap s object ''id'') (plot_objects s)
          = int (length ys)"
    by blast
  have c: "new_DeleteObjectCommand s object = DeleteObjectCommand object (int (length ys))"
    by (simp add: new_DeleteObjectCommand_def i)
  show ?thesis
    unfolding c
    by (simp add: xs splice_remove_at splice_insert_at selectObject_def)
qed

text \<open>
  C6. Every command built in a state that satisfies the invariant keeps it, in \<open>execute\<close>
  and in \<open>undo\<close>: the selection is a listed object or absent. The selection is cleared
  when delete's \<open>execute\<close>, add's \<open>undo\<close> or clear's \<open>execute\<close> removes an object, and
  \<open>undo\<close> of a clear restores the saved list and the saved selection as they were.
\<close>

theorem commands_keep_selection_live:
  assumes "scene_ok s0" and "constructed_in s0 c" and "scene_ok s"
  shows "scene_ok (command_execute c s) \<and> scene_ok (command_undo c s)
       \<and> (case c of
            DeleteObjectCommand object object_index \<Rightarrow>
              object_index \<noteq> -1 \<longrightarrow> selected_object (command_execute c s) = None
          | AddObjectCommand object \<Rightarrow>
              plot_objects (command_undo c s) \<noteq> plot_objects s
                \<longrightarrow> selected_object (command_undo c s) = None
          | ClearPlotCommand saved_objects saved_selection \<Rightarrow>
              selected_object (command_execute c s) = None
              \<and> plot_objects (command_undo c s) = plot_objects s0
              \<and> selected_object (command_undo c s) = selected_object s0
          | _ \<Rightarrow> True)"
proof (cases c)
  case (AddObjectCommand object)
  with assms(3) show ?thesis
    using splice_remove_subset [of _ "plot_objects s"]
    by (auto simp add: scene_ok_def selectObject_def Let_def split: option.splits)
next
  case (DeleteObjectCommand object object_index)
  with assms(3) show ?thesis
    using splice_insert_member [of object object_index "plot_objects s"]
    by (auto simp add: scene_ok_def selectObject_def split: option.splits)
next
  case (ModifyObjectCommand object property old_value new_value)
  with assms(3) show ?thesis
    by (simp add: scene_ok_def split: option.splits)
next
  case (MoveObjectCommand object old_coords new_coords)
  with assms(3) show ?thesis
    by (simp add: scene_ok_def split: option.splits)
next
  case (ClearPlotCommand saved_objects saved_selection)
  with assms(1,2) show ?thesis
    by (simp add: scene_ok_def new_ClearPlotCommand_def split: option.splits)
qed

lemma get_set_coordinates:
  assumes "obj ''type'' = o0 ''type''"
  shows "getObjectCoordinates (setObjectCoordinates obj (getObjectCoordinates o0))
           = getObjectCoordinates o0"
  using assms by (simp add: getObjectCoordinates_def setObjectCoordinates_def)

lemma stopDragging_resets:
  "dragging (stopDragging s) =
     \<lparr>is_dragging = False, dragged_object = None, drag_start_mouse = None,
      drag_start_coords = None, original_coords = None\<rparr>"
  by (simp add: stopDragging_def Let_def)

lemma stopDragging_scene:
  "heap (stopDragging s) = heap s \<and> plot_objects (stopDragging s) = plot_objects s
   \<and> selected_object (stopDragging s) = selected_object s
   \<and> max_history_size (stopDragging s) = max_history_size s"
  by (simp add: stopDragging_def Let_def split: bool.splits option.splits)

lemma stopDragging_moved:
  assumes "history_ok s"
    and "dragging s = dragging (startDragging obj m p s0)"
    and "JSON_stringify (getObjectCoordinates (heap s0 obj))
           \<noteq> JSON_stringify (getObjectCoordinates (heap s obj))"
  shows "command_history (stopDragging s) =
           command_history
             (executeCommand
                (MoveObjectCommand obj (getObjectCoordinates (heap s0 obj))
                   (getObjectCoordinates (heap s obj))) s)"
    and "current_command_index (stopDragging s) =
           current_command_index
             (executeCommand
                (MoveObjectCommand obj (getObjectCoordinates (heap s0 obj))
                   (getObjectCoordinates (heap s obj))) s)"
  using assms(2,3)
  by (simp_all add: stopDragging_def startDragging_def executeCommand_def Let_def)

lemma stopDragging_not_moved:
  assumes "dragging s = dragging (startDragging obj m p s0)"
    and "JSON_stringify (getObjectCoordinates (heap s0 obj))
           = JSON_stringify (getObjectCoordinates (heap s obj))"
  shows "command_history (stopDragging s) = command_history s"
    and "current_command_index (stopDragging s) = current_command_index s"
  using assms
  by (simp_all add: stopDragging_def startDragging_def Let_def)

text \<open>
  C2. Pointer-up on a drag started by \<open>startDragging\<close> in \<open>s0\<close>: when the coordinates
  differ from those at pointer-down, \<open>stopDragging\<close> cuts the history at the cursor,
  appends one move command from the old to the new coordinates, evicts the oldest command
  if the cap is exceeded, and leaves every object as it is; \<open>undo\<close> then gives the object
  its coordinates of pointer-down. When the coordinates are the same the history is
  unchanged. The drag session is closed in both cases.
\<close>

theorem drag_commit:
  assumes "history_ok s" and "0 < max_history_size s"
    and "dragging s = dragging (startDragging obj m p s0)"
    and "heap s obj ''type'' = heap s0 obj ''type''"
  shows "(let original = getObjectCoordinates (heap s0 obj);
              current_coords = getObjectCoordinates (heap s obj);
              command = MoveObjectCommand obj original current_coords;
              kept = take (nat (current_command_index s + 1)) (command_history s);
              s' = stopDragging s
          in heap s' = heap s \<and> plot_objects s' = plot_objects s
             \<and> selected_object s' = selected_object s
             \<and> \<not> is_dragging (dragging s')
             \<and> (if JSON_stringify original \<noteq> JSON_stringify current_coords
                then command_history s' =
                       (if int (length kept) = max_history_size s
                        then tl (kept @ [command]) else kept @ [command])
                     \<and> current_command_index s' = int (length (command_history s')) - 1
                     \<and> (case undo s' of
                           Inr s'' \<Rightarrow>
                             getObjectCoordinates (heap s'' obj) = original
                             \<and> current_command_index s'' = current_command_index s' - 1
                         | Inl e \<Rightarrow> False)
                else command_history s' = command_history s
                     \<and> current_command_index s' = current_command_index s))"
proof -
  define original where "original = getObjectCoordinates (heap s0 obj)"
  define current_coords where "current_coords = getObjectCoordinates (heap s obj)"
  define command where "command = MoveObjectCommand obj original current_coords"
  define kept where "kept = take (nat (current_command_index s + 1)) (command_history s)"
  define s' where "s' = stopDragging s"
  note sc = stopDragging_scene [of s, folded s'_def]
  have dr: "\<not> is_dragging (dragging s')"
    by (simp add: s'_def stopDragging_resets)
  have br: "(if JSON_stringify original \<noteq> JSON_stringify current_coords
                then command_history s' =
                       (if int (length kept) = max_history_size s
                        then tl (kept @ [command]) else kept @ [command])
                     \<and> current_command_index s' = int (length (command_history s')) - 1
                     \<and> (case undo s' of
                           Inr s'' \<Rightarrow>
                             getObjectCoordinates (heap s'' obj) = original
                             \<and> current_command_index s'' = current_command_index s' - 1
                         | Inl e \<Rightarrow> False)
                else command_history s' = command_history s
                     \<and> current_command_index s' = current_command_index s)"
  proof (cases "JSON_stringify original \<noteq> JSON_stringify current_coords")
    case True
    then have mv: "JSON_stringify (getObjectCoordinates (heap s0 obj))
           \<noteq> JSON_stringify (getObjectCoordinates (heap s obj))"
      by (simp add: original_def current_coords_def)
    note h = stopDragging_moved [OF assms(1,3) mv, folded original_def current_coords_def
        command_def s'_def]
    note e = executeCommand_history [OF assms(1), of command, folded kept_def]
    from assms(1) have len: "int (length kept) \<le> max_history_size s"
      by (auto simp add: history_ok_def kept_def)
    have hist: "command_history s' =
                  (if int (length kept) = max_history_size s
                   then tl (kept @ [command]) else kept @ [command])"
      using h(1) e(1) len by (auto simp add: Let_def)
    have idx: "current_command_index s' = int (length (command_history s')) - 1"
      using h e(2) by simp
    have ne: "command_history s' \<noteq> []" and lst: "last (command_history s') = command"
      using hist assms(2) len by (cases kept; auto)+
    from ne idx have i0: "0 \<le> current_command_index s'"
      by (cases "command_history s'") auto
    from lst ne idx have nth: "command_history s' ! nat (current_command_index s') = command"
      by (simp add: last_conv_nth nat_diff_distrib')
    have u: "undo s' = Inr ((command_undo command s')
               \<lparr>current_command_index := current_command_index s' - 1\<rparr>)"
      using i0 idx nth by (simp add: undo_def)
    have "getObjectCoordinates (heap (command_undo command s') obj) = original"
      using get_set_coordinates [of "heap s obj" "heap s0 obj", OF assms(4)] sc
      by (simp add: command_def original_def)
    with u hist idx True show ?thesis
      by simp
  next
    case False
    then have eq: "JSON_stringify (getObjectCoordinates (heap s0 obj))
           = JSON_stringify (getObjectCoordinates (heap s obj))"
      by (simp add: original_def current_coords_def)
    from stopDragging_not_moved [OF assms(3) eq] False show ?thesis
      by (simp add: s'_def)
  qed
  from sc dr br show ?thesis
    unfolding Let_def original_def [symmetric] current_coords_def [symmetric]
      command_def [symmetric] kept_def [symmetric] s'_def [symmetric]
    by (intro conjI) simp_all
qed

lemma example_point_coords:
  "getObjectCoordinates (example_point px py) = CoordsXY (JNum px) (JNum py)"
  by (simp add: getObjectCoordinates_def example_point_def)

theorem drag_commit_witness:
  "history_ok pointer_up \<and> 0 < max_history_size pointer_up
   \<and> dragging pointer_up = dragging (startDragging 0 (400, 300) (0, 0) pointer_down)
   \<and> heap pointer_up 0 ''type'' = heap pointer_down 0 ''type''
   \<and> command_history (stopDragging pointer_up)
       = [MoveObjectCommand 0 (CoordsXY (JNum 0) (JNum 0)) (CoordsXY (JNum 3) (JNum 4))]
   \<and> heap (stopDragging pointer_up) = heap pointer_up
   \<and> (case undo (stopDragging pointer_up) of
         Inr s'' \<Rightarrow> getObjectCoordinates (heap s'' 0) = CoordsXY (JNum 0) (JNum 0)
       | Inl e \<Rightarrow> False)"
proof -
  have a: "history_ok pointer_up"
    by (simp add: history_ok_def pointer_up_def pointer_down_def startDragging_def
        new_PlotEditor_def)
  have b: "0 < max_history_size pointer_up"
    by (simp add: pointer_up_def pointer_down_def startDragging_def new_PlotEditor_def)
  have c: "dragging pointer_up = dragging (startDragging 0 (400, 300) (0, 0) pointer_down)"
    by (simp add: pointer_up_def startDragging_def)
  have d: "heap pointer_up 0 ''type'' = heap pointer_down 0 ''type''"
    by (simp add: pointer_up_def pointer_down_def example_point_def)
  have o: "getObjectCoordinates (heap pointer_down 0) = CoordsXY (JNum 0) (JNum 0)"
    by (simp add: pointer_down_def example_point_coords)
  have n: "getObjectCoordinates (heap pointer_up 0) = CoordsXY (JNum 3) (JNum 4)"
    by (simp add: pointer_up_def example_point_coords)
  have k: "take (nat (current_command_index pointer_up + 1)) (command_history pointer_up) = []"
    by (simp add: pointer_up_def pointer_down_def startDragging_def new_PlotEditor_def)
  note t = drag_commit [OF a b c d, unfolded Let_def o n k]
  from t have 1: "heap (stopDragging pointer_up) = heap pointer_up"
    by (rule conjunct1)
  from t b have 2: "command_history (stopDragging pointer_up)
       = [MoveObjectCommand 0 (CoordsXY (JNum 0) (JNum 0)) (CoordsXY (JNum 3) (JNum 4))]"
    by simp
  from t have 3: "(case undo (stopDragging pointer_up) of
         Inr s'' \<Rightarrow> getObjectCoordinates (heap s'' 0) = CoordsXY (JNum 0) (JNum 0)
       | Inl e \<Rightarrow> False)"
    by (simp split: sum.splits)
  from a b c d 2 1 3 show ?thesis
    by (intro conjI) assumption+
qed

theorem delete_undo_restores_order_witness:
  "0 \<in> set (plot_objects three_objects) \<and> ids_unique three_objects
   \<and> new_DeleteObjectCommand three_objects 0 = DeleteObjectCommand 0 0
   \<and> plot_objects (command_execute (DeleteObjectCommand 0 0) three_objects) = [1, 2]
   \<and> plot_objects (command_undo (DeleteObjectCommand 0 0)
                     (command_execute (DeleteObjectCommand 0 0) three_objects)) = [0, 1, 2]"
proof -
  have a: "0 \<in> set (plot_objects three_objects)"
    by (simp add: three_objects_def)
  have b: "ids_unique three_objects"
    by (simp add: ids_unique_def three_objects_def)
  have c: "new_DeleteObjectCommand three_objects 0 = DeleteObjectCommand 0 0"
    by (simp add: new_DeleteObjectCommand_def three_objects_def findIndex_def)
  have p: "plot_objects three_objects = [0, 1, 2]"
    by (simp add: three_objects_def)
  note t = delete_undo_restores_order [OF a b, unfolded c command.case p]
  from t have 1: "plot_objects (command_execute (DeleteObjectCommand 0 0) three_objects) = [1, 2]"
    by simp
  from t have 2: "plot_objects (command_undo (DeleteObjectCommand 0 0)
                     (command_execute (DeleteObjectCommand 0 0) three_objects)) = [0, 1, 2]"
    by (elim conjE)
  from a b c 1 2 show ?thesis
    by (intro conjI) assumption+
qed

theorem commands_keep_selection_live_witness:
  "scene_ok three_objects
   \<and> constructed_in three_objects (new_ClearPlotCommand three_objects)
   \<and> scene_ok new_PlotEditor
   \<and> scene_ok (command_execute (new_ClearPlotCommand three_objects) new_PlotEditor)
   \<and> scene_ok (command_undo (new_ClearPlotCommand three_objects) new_PlotEditor)
   \<and> plot_objects (command_undo (new_ClearPlotCommand three_objects) new_PlotEditor) = [0, 1, 2]
   \<and> selected_object (command_undo (new_ClearPlotCommand three_objects) new_PlotEditor) = Some 0"
proof -
  have a: "scene_ok three_objects"
    by (simp add: scene_ok_def three_objects_def)
  have b: "constructed_in three_objects (new_ClearPlotCommand three_objects)"
    by (simp add: new_ClearPlotCommand_def)
  have c: "scene_ok new_PlotEditor"
    by (simp add: scene_ok_def new_PlotEditor_def)
  note t = commands_keep_selection_live [OF a b c]
  have p: "plot_objects three_objects = [0, 1, 2]" "selected_object three_objects = Some 0"
    by (simp_all add: three_objects_def)
  from t have 1: "scene_ok (command_execute (new_ClearPlotCommand three_objects) new_PlotEditor)"
    and 2: "scene_ok (command_undo (new_ClearPlotCommand three_objects) new_PlotEditor)"
    by simp_all
  from t have 3: "plot_objects (command_undo (new_ClearPlotCommand three_objects) new_PlotEditor)
       = [0, 1, 2]"
    and 4: "selected_object (command_undo (new_ClearPlotCommand three_objects) new_PlotEditor)
       = Some 0"
    by (simp_all add: new_ClearPlotCommand_def p)
  from a b c 1 2 3 4 show ?thesis
    by (intro conjI) assumption+
qed

section \<open>Braces\<close>

lemma sqrt_25: "sqrt 25 = 5"
  by (rule real_sqrt_unique) simp_all

lemma default_view_canvas:
  "plotToCanvas default_view px py = (px * 24 + 400, 300 - py * 24)"
  by (simp add: plotToCanvas_def plotToCanvas_layout_def default_view_def Let_def field_simps)

lemma short_brace_length: "brace_device_length default_view (short_brace st) = 5"
  by (simp add: brace_device_length_def default_view_canvas short_brace_def Let_def sqrt_25)

lemma traditional_short_renders_nothing:
  assumes "brace_device_length v brace < 20"
  shows "drawTraditionalBrace v brace = []"
  using assms by (simp add: drawTraditionalBrace_def brace_device_length_def Let_def)

lemma half_short_renders_nothing:
  assumes "sqrt ((fst E - fst S) * (fst E - fst S) + (snd E - snd S) * (snd E - snd S)) < 20"
  shows "draw45DegBraceHalf S E m brace = Inr []"
  using assms by (simp add: draw45DegBraceHalf_def Let_def)

lemma deg45_short_renders_nothing:
  assumes "brace_device_length v brace < 20"
  shows "draw45DegBrace v brace = Inr [SetStrokeStyle (color brace), SetLineWidth 2, BeginPath, Stroke]"
proof -
  obtain sx sy where s: "plotToCanvas v (x1 brace) (y1 brace) = (sx, sy)"
    by (cases "plotToCanvas v (x1 brace) (y1 brace)")
  obtain ex ey where e: "plotToCanvas v (x2 brace) (y2 brace) = (ex, ey)"
    by (cases "plotToCanvas v (x2 brace) (y2 brace)")
  from assms have l: "sqrt ((ex - sx) * (ex - sx) + (ey - sy) * (ey - sy)) < 20"
    by (simp add: brace_device_length_def s e Let_def)
  have l': "sqrt ((sx - ex) * (sx - ex) + (sy - ey) * (sy - ey))
      = sqrt ((ex - sx) * (ex - sx) + (ey - sy) * (ey - sy))"
    by (simp add: algebra_simps)
  have 1: "draw45DegBraceHalf (sx, sy) (ex, ey) m brace = Inr []" for m
    by (rule half_short_renders_nothing) (simp add: l)
  have 2: "draw45DegBraceHalf (ex, ey) (sx, sy) m brace = Inr []" for m
    by (rule half_short_renders_nothing) (simp add: l l')
  show ?thesis
    by (simp add: draw45DegBrace_def s e Let_def 1 2)
qed

text \<open>
  C7. A brace whose endpoints are 5 pixels apart, below the threshold of 20 pixels of the
  traditional and the 45-degree style: those two styles add no segment to the path, the
  smooth style divides by the length and strokes two quadratic curves.
\<close>

theorem smooth_brace_short_draws:
  "brace_device_length default_view (short_brace ''smooth'') = 5
   \<and> drawBrace default_view (short_brace ''smooth'')
       = Inr [SetStrokeStyle ''#333333'', SetLineWidth 2, BeginPath, MoveTo 400 300,
              QuadraticCurveTo (827 / 2) 307 (803 / 2) 298,
              QuadraticCurveTo (827 / 2) 307 403 296, Stroke]
   \<and> \<not> renders_nothing (drawSmoothBrace default_view (short_brace ''smooth''))
   \<and> drawBrace default_view (short_brace ''traditional'') = Inr []
   \<and> drawBrace default_view (short_brace ''45deg'')
       = Inr [SetStrokeStyle ''#333333'', SetLineWidth 2, BeginPath, Stroke]"
proof -
  have d: "drawSmoothBrace default_view (short_brace ''smooth'')
       = [SetStrokeStyle ''#333333'', SetLineWidth 2, BeginPath, MoveTo 400 300,
              QuadraticCurveTo (827 / 2) 307 (803 / 2) 298,
              QuadraticCurveTo (827 / 2) 307 403 296, Stroke]"
    by (simp add: drawSmoothBrace_def default_view_canvas short_brace_def Let_def sqrt_25
        truthy_def js_or_def)
  have t: "drawTraditionalBrace default_view (short_brace ''traditional'') = []"
    by (rule traditional_short_renders_nothing) (simp add: short_brace_length)
  have f: "draw45DegBrace default_view (short_brace ''45deg'')
       = Inr [SetStrokeStyle ''#333333'', SetLineWidth 2, BeginPath, Stroke]"
    using deg45_short_renders_nothing [of default_view "short_brace ''45deg''"]
    by (simp add: short_brace_length) (simp add: short_brace_def)
  have st: "style (short_brace st) = st" for st
    by (simp add: short_brace_def)
  show ?thesis
    by (simp add: short_brace_length d t f drawBrace_def renders_nothing_def st)
qed

lemma atan2_cos_sin:
  assumes "x \<noteq> 0 \<or> y \<noteq> 0"
  shows "cos (atan2 y x) = x / sqrt (x\<^sup>2 + y\<^sup>2)" and "sin (atan2 y x) = y / sqrt (x\<^sup>2 + y\<^sup>2)"
proof -
  from assms have z: "Complex x y \<noteq> 0"
    by (auto simp add: complex_eq_iff)
  have c: "cis (Arg (Complex x y)) = sgn (Complex x y)"
    by (rule cis_Arg [OF z])
  have m: "cmod (Complex x y) = sqrt (x\<^sup>2 + y\<^sup>2)"
    by (simp add: cmod_def)
  from c have "Re (cis (Arg (Complex x y))) = Re (sgn (Complex x y))"
    by simp
  then show "cos (atan2 y x) = x / sqrt (x\<^sup>2 + y\<^sup>2)"
    by (simp add: atan2_def m)
  from c have "Im (cis (Arg (Complex x y))) = Im (sgn (Complex x y))"
    by simp
  then show "sin (atan2 y x) = y / sqrt (x\<^sup>2 + y\<^sup>2)"
    by (simp add: atan2_def m)
qed

lemma atan2_scaled:
  assumes "0 < r" and "ux\<^sup>2 + uy\<^sup>2 = 1"
  shows "cos (atan2 (r * uy) (r * ux)) = ux" and "sin (atan2 (r * uy) (r * ux)) = uy"
proof -
  from assms have nz: "r * ux \<noteq> 0 \<or> r * uy \<noteq> 0"
    by (auto simp add: power2_eq_square)
  have "(r * ux)\<^sup>2 + (r * uy)\<^sup>2 = r\<^sup>2 * (ux\<^sup>2 + uy\<^sup>2)"
    by (simp add: algebra_simps power2_eq_square)
  with assms have s: "sqrt ((r * ux)\<^sup>2 + (r * uy)\<^sup>2) = r"
    by simp
  from assms(1) show "cos (atan2 (r * uy) (r * ux)) = ux"
    by (simp only: atan2_cos_sin(1) [OF nz] s) simp
  from assms(1) show "sin (atan2 (r * uy) (r * ux)) = uy"
    by (simp only: atan2_cos_sin(2) [OF nz] s) simp
qed

lemma raise_angle_props:
  "sin (raise_angle d) = sin d \<and> cos (raise_angle d) = cos d \<and> - pi < raise_angle d"
proof (induction d rule: raise_angle.induct)
  case (1 d)
  show ?case
  proof (cases "d \<le> - pi")
    case True
    then have "raise_angle d = raise_angle (d + 2 * pi)"
      by (subst raise_angle.simps) simp
    with True 1 show ?thesis
      by simp
  next
    case False
    then have "raise_angle d = d"
      by (subst raise_angle.simps) simp
    with False show ?thesis
      by simp
  qed
qed

lemma lower_angle_props:
  "sin (lower_angle d) = sin d \<and> cos (lower_angle d) = cos d \<and> lower_angle d \<le> pi
   \<and> (- pi < d \<longrightarrow> - pi < lower_angle d)"
proof (induction d rule: lower_angle.induct)
  case (1 d)
  show ?case
  proof (cases "d > pi")
    case True
    have "sin (d - 2 * pi) = sin d" "cos (d - 2 * pi) = cos d"
      by (simp_all add: sin_diff cos_diff)
    moreover from True have "lower_angle d = lower_angle (d - 2 * pi)"
      by (subst lower_angle.simps) simp
    ultimately show ?thesis
      using True 1 by simp
  next
    case False
    then have "lower_angle d = d"
      by (subst lower_angle.simps) simp
    with False show ?thesis
      by simp
  qed
qed

lemma ccwForMinorArc_sin: "ccwForMinorArc a0 a1 \<longleftrightarrow> sin (a1 - a0) < 0"
proof -
  define r where "r = lower_angle (raise_angle (a1 - a0))"
  from raise_angle_props [of "a1 - a0"] lower_angle_props [of "raise_angle (a1 - a0)"]
  have s: "sin r = sin (a1 - a0)" and lo: "- pi < r" and hi: "r \<le> pi"
    by (simp_all add: r_def)
  have "r < 0 \<longleftrightarrow> sin r < 0"
  proof
    assume "r < 0"
    with lo have "0 < sin (- r)"
      by (intro sin_gt_zero) simp_all
    then show "sin r < 0" by simp
  next
    assume n: "sin r < 0"
    show "r < 0"
    proof (rule ccontr)
      assume "\<not> r < 0"
      with hi have "0 \<le> sin r"
        by (intro sin_ge_zero) simp_all
      with n show False by simp
    qed
  qed
  then show ?thesis
    by (simp add: ccwForMinorArc_def r_def [symmetric] s)
qed

lemma half_geometry:
  fixes sx sy ax ay m r g :: real
  assumes unit: "ax\<^sup>2 + ay\<^sup>2 = 1" and m: "m = 1 \<or> m = -1" and r: "0 < r" and g: "0 < g"
  defines "px \<equiv> - ay * m" and "py \<equiv> ax * m" and "R \<equiv> r * sqrt 2"
  defines "C1 \<equiv> pt (sx, sy) (ax, ay) (px, py) r r"
    and "P1 \<equiv> pt (sx, sy) (ax, ay) (px, py) r (r - R)"
    and "P2 \<equiv> pt (sx, sy) (ax, ay) (px, py) (r + g) (r - R)"
    and "C2 \<equiv> pt (sx, sy) (ax, ay) (px, py) (r + g) (- R)"
    and "PM \<equiv> pt (sx, sy) (ax, ay) (px, py) (2 * r + g) (- R)"
  shows "tangent_continuous
           [MoveTo sx sy,
            Arc (fst C1) (snd C1) R (angle C1 (sx, sy)) (angle C1 P1)
              (ccwForMinorArc (angle C1 (sx, sy)) (angle C1 P1)),
            LineTo (fst P2) (snd P2),
            Arc (fst C2) (snd C2) r (angle C2 P2) (angle C2 PM)
              (ccwForMinorArc (angle C2 P2) (angle C2 PM))]"
proof -
  have mm: "m * m = 1" using m by auto
  have s2: "sqrt 2 * sqrt 2 = 2" by simp
  have s2p: "0 < sqrt 2" by simp
  have Rpos: "0 < R" using r by (simp add: R_def)
  have punit: "(- px)\<^sup>2 + (- py)\<^sup>2 = 1" "px\<^sup>2 + py\<^sup>2 = 1"
    using unit mm by (simp_all add: px_def py_def power2_eq_square algebra_simps)
  have unit': "ax * ax + ay * ay = 1"
    using unit by (simp add: power2_eq_square)
  define u0x where "u0x = - (ax + px) / sqrt 2"
  define u0y where "u0y = - (ay + py) / sqrt 2"
  have orth: "ax * px + ay * py = 0"
    by (simp add: px_def py_def)
  have "(ax + px)\<^sup>2 + (ay + py)\<^sup>2 = (ax\<^sup>2 + ay\<^sup>2) + (px\<^sup>2 + py\<^sup>2) + 2 * (ax * px + ay * py)"
    by (simp add: power2_eq_square algebra_simps)
  then have sum2: "(ax + px)\<^sup>2 + (ay + py)\<^sup>2 = 2"
    using unit punit(2) orth by simp
  have u0unit: "u0x\<^sup>2 + u0y\<^sup>2 = 1"
  proof -
    have "u0x\<^sup>2 + u0y\<^sup>2 = ((ax + px)\<^sup>2 + (ay + py)\<^sup>2) / 2"
      by (simp add: u0x_def u0y_def power_divide add_divide_distrib power2_eq_square
          algebra_simps)
    with sum2 show ?thesis by simp
  qed
  have h: "r * sqrt 2 * (- t / sqrt 2) = - (r * t)" for t
    by simp
  have Ru0: "R * u0x = - (r * (ax + px))" "R * u0y = - (r * (ay + py))"
    unfolding R_def u0x_def u0y_def by (rule h)+
  define a0 where "a0 = angle C1 (sx, sy)"
  define a1 where "a1 = angle C1 P1"
  define b0 where "b0 = angle C2 P2"
  define b1 where "b1 = angle C2 PM"
  have a0_eq: "a0 = atan2 (R * u0y) (R * u0x)"
    by (simp add: a0_def angle_def C1_def pt_def Ru0 algebra_simps)
  have a1_eq: "a1 = atan2 (R * (- py)) (R * (- px))"
    by (simp add: a1_def angle_def C1_def P1_def pt_def algebra_simps)
  have b0_eq: "b0 = atan2 (r * py) (r * px)"
    by (simp add: b0_def angle_def C2_def P2_def pt_def algebra_simps)
  have b1_eq: "b1 = atan2 (r * ay) (r * ax)"
    by (simp add: b1_def angle_def C2_def PM_def pt_def algebra_simps)
  have ca0: "cos a0 = u0x" and sa0: "sin a0 = u0y"
    unfolding a0_eq by (rule atan2_scaled [OF Rpos u0unit])+
  have ca1: "cos a1 = - px" and sa1: "sin a1 = - py"
    unfolding a1_eq by (rule atan2_scaled [OF Rpos punit(1)])+
  have cb0: "cos b0 = px" and sb0: "sin b0 = py"
    unfolding b0_eq by (rule atan2_scaled [OF r punit(2)])+
  have cb1: "cos b1 = ax" and sb1: "sin b1 = ay"
    unfolding b1_eq by (rule atan2_scaled [OF r unit])+
  have "sin (a1 - a0) = (py * (ax + px) - px * (ay + py)) / sqrt 2"
    by (simp add: sin_diff ca0 sa0 ca1 sa1 u0x_def u0y_def algebra_simps diff_divide_distrib)
  also have "py * (ax + px) - px * (ay + py) = m * (ax * ax + ay * ay)"
    by (simp add: px_def py_def algebra_simps)
  finally have sin1: "sin (a1 - a0) = m / sqrt 2"
    by (simp add: unit')
  have ccw1: "ccwForMinorArc a0 a1 \<longleftrightarrow> m = -1"
    using m by (auto simp add: ccwForMinorArc_sin sin1 divide_less_0_iff)
  have "sin (b1 - b0) = ay * px - ax * py"
    by (simp add: sin_diff cb0 sb0 cb1 sb1)
  also have "\<dots> = - (m * (ax * ax + ay * ay))"
    by (simp add: px_def py_def algebra_simps)
  finally have sin2: "sin (b1 - b0) = - m"
    by (simp add: unit')
  have ccw2: "ccwForMinorArc b0 b1 \<longleftrightarrow> m = 1"
    using m by (auto simp add: ccwForMinorArc_sin sin2)
  have d1: "arc_direction a1 (ccwForMinorArc a0 a1) = (ax, ay)"
    using m by (auto simp add: arc_direction_def ccw1 ca1 sa1 px_def py_def)
  have d2: "arc_direction b0 (ccwForMinorArc b0 b1) = (ax, ay)"
    using m by (auto simp add: arc_direction_def ccw2 cb0 sb0 px_def py_def)
  have start: "arc_point (fst C1) (snd C1) R a0 = (sx, sy)"
    by (simp add: arc_point_def ca0 sa0 Ru0) (simp add: C1_def pt_def algebra_simps)
  have p1: "arc_point (fst C1) (snd C1) R a1 = P1"
    by (simp add: arc_point_def ca1 sa1 C1_def P1_def pt_def algebra_simps)
  have p2: "arc_point (fst C2) (snd C2) r b0 = (fst P2, snd P2)"
    by (simp add: arc_point_def cb0 sb0 C2_def P2_def pt_def algebra_simps)
  have lx: "fst P2 - fst P1 = ax * g" and ly: "snd P2 - snd P1 = ay * g"
    by (simp_all add: P1_def P2_def pt_def algebra_simps)
  have "ax * g * (ax * g) + ay * g * (ay * g) = g\<^sup>2 * (ax * ax + ay * ay)"
    by (simp add: power2_eq_square algebra_simps)
  then have len: "sqrt (ax * g * (ax * g) + ay * g * (ay * g)) = g"
    using g by (simp add: unit')
  show ?thesis
    unfolding tangent_continuous.simps Let_def a0_def [symmetric] a1_def [symmetric]
      b0_def [symmetric] b1_def [symmetric] p1 lx ly len start p2 d1 d2
    using g by simp
qed

lemma sqrt_3600: "sqrt 3600 = 60"
  by (rule real_sqrt_unique) simp_all

text \<open>
  C8, amended. The inner radius comes from the effective elevation
  \<open>brace.elevation || brace.width\<close>: the elevation unless it is zero or absent, else the
  legacy width; when that value is zero or absent too, the radius is a sixth of the length.
  For endpoints at least 20 pixels apart, a mirror multiplier of 1 or -1 (the two that
  \<open>draw45DegBrace\<close> passes) and an effective elevation that is not negative, each half of
  the 45-degree brace is smooth at both junctions: the tangent of the outer arc at its end,
  the direction of the straight segment and the tangent of the inner arc at its start are
  the same unit vector.
\<close>

theorem brace_half_tangent_continuous:
  assumes len: "20 \<le> sqrt ((fst E - fst S) * (fst E - fst S) + (snd E - snd S) * (snd E - snd S))"
    and m: "m = 1 \<or> m = -1"
    and e: "case js_or (elevation brace) (width brace) of Some e \<Rightarrow> 0 \<le> e | None \<Rightarrow> True"
  shows "case draw45DegBraceHalf S E m brace of
           Inr ops \<Rightarrow> tangent_continuous ops
         | Inl err \<Rightarrow> False"
proof -
  define dx where "dx = fst E - fst S"
  define dy where "dy = snd E - snd S"
  define L where "L = sqrt (dx * dx + dy * dy)"
  define ax where "ax = dx / L"
  define ay where "ay = dy / L"
  define r where "r = (if truthy (js_or (elevation brace) (width brace))
                  then min (the (js_or (elevation brace) (width brace))) (L / 6)
                  else L / 6)"
  define g where "g = L / 2 - 2 * r"
  from len have L20: "20 \<le> L"
    by (simp add: L_def dx_def dy_def)
  then have Lpos: "0 < L" by simp
  have L2: "L\<^sup>2 = dx * dx + dy * dy"
    unfolding L_def by (rule real_sqrt_pow2) simp
  have "ax\<^sup>2 + ay\<^sup>2 = (dx * dx + dy * dy) / L\<^sup>2"
    by (simp only: ax_def ay_def power_divide add_divide_distrib)
      (simp only: power2_eq_square)
  also have "\<dots> = L\<^sup>2 / L\<^sup>2"
    by (simp only: L2)
  finally have unit: "ax\<^sup>2 + ay\<^sup>2 = 1"
    using Lpos by simp
  have rpos: "0 < r"
  proof (cases "truthy (js_or (elevation brace) (width brace))")
    case True
    then obtain v where v: "js_or (elevation brace) (width brace) = Some v" "v \<noteq> 0"
      by (auto simp add: truthy_def split: option.splits)
    with e have "0 < v" by simp
    with True v Lpos show ?thesis by (simp add: r_def)
  next
    case False
    with Lpos show ?thesis by (simp add: r_def)
  qed
  have "min t (L / 6) \<le> L / 6" for t
    by (rule min.cobounded2)
  then have rle: "r \<le> L / 6"
    unfolding r_def by (cases "truthy (js_or (elevation brace) (width brace))") simp_all
  with Lpos have gpos: "0 < g"
    by (simp add: g_def)
  then have seg: "max 0 (L / 2 - 2 * r) = g"
    by (simp add: g_def)
  have half: "L / 2 = 2 * r + g"
    by (simp add: g_def)
  have Rn: "\<not> r * sqrt 2 < 0" and rn: "\<not> r < 0"
    using rpos by (simp_all add: mult_less_0_iff)
  have perp: "(- dy / L * m, dx / L * m) = (- ay * m, ax * m)"
    by (simp add: ax_def ay_def)
  have e1: "dy * m / L = ay * m"
    by (simp add: ay_def)
  from gpos have mx: "max 0 g = g"
    by simp
  note geo = half_geometry [OF unit m rpos gpos, of "fst S" "snd S"]
  have "draw45DegBraceHalf S E m brace =
          Inr [MoveTo (fst S) (snd S),
            Arc (fst (pt S (ax, ay) (- ay * m, ax * m) r r))
                (snd (pt S (ax, ay) (- ay * m, ax * m) r r)) (r * sqrt 2)
              (angle (pt S (ax, ay) (- ay * m, ax * m) r r) S)
              (angle (pt S (ax, ay) (- ay * m, ax * m) r r)
                 (pt S (ax, ay) (- ay * m, ax * m) r (r - r * sqrt 2)))
              (ccwForMinorArc (angle (pt S (ax, ay) (- ay * m, ax * m) r r) S)
                 (angle (pt S (ax, ay) (- ay * m, ax * m) r r)
                    (pt S (ax, ay) (- ay * m, ax * m) r (r - r * sqrt 2)))),
            LineTo (fst (pt S (ax, ay) (- ay * m, ax * m) (r + g) (r - r * sqrt 2)))
                   (snd (pt S (ax, ay) (- ay * m, ax * m) (r + g) (r - r * sqrt 2))),
            Arc (fst (pt S (ax, ay) (- ay * m, ax * m) (r + g) (- (r * sqrt 2))))
                (snd (pt S (ax, ay) (- ay * m, ax * m) (r + g) (- (r * sqrt 2)))) r
              (angle (pt S (ax, ay) (- ay * m, ax * m) (r + g) (- (r * sqrt 2)))
                 (pt S (ax, ay) (- ay * m, ax * m) (r + g) (r - r * sqrt 2)))
              (angle (pt S (ax, ay) (- ay * m, ax * m) (r + g) (- (r * sqrt 2)))
                 (pt S (ax, ay) (- ay * m, ax * m) (2 * r + g) (- (r * sqrt 2))))
              (ccwForMinorArc
                 (angle (pt S (ax, ay) (- ay * m, ax * m) (r + g) (- (r * sqrt 2)))
                    (pt S (ax, ay) (- ay * m, ax * m) (r + g) (r - r * sqrt 2)))
                 (angle (pt S (ax, ay) (- ay * m, ax * m) (r + g) (- (r * sqrt 2)))
                    (pt S (ax, ay) (- ay * m, ax * m) (2 * r + g) (- (r * sqrt 2)))))]"
    unfolding draw45DegBraceHalf_def Let_def dx_def [symmetric] dy_def [symmetric]
      L_def [symmetric] r_def [symmetric] ax_def [symmetric] ay_def [symmetric] perp seg half
      ctx_arc_def
    using L20 Rn rn by (simp add: e1 mx)
  with geo show ?thesis
    by simp
qed

theorem brace_half_tangent_continuous_witness:
  "20 \<le> sqrt ((fst (60, 0) - fst (0, 0)) * (fst (60, 0) - fst (0, 0))
               + (snd (60, 0) - snd (0, 0)) * (snd (60, 0) - snd (0::real, 0::real)))
   \<and> ((1::real) = 1 \<or> (1::real) = -1)
   \<and> (case js_or (elevation default_brace) (width default_brace) of
         Some e \<Rightarrow> 0 \<le> e | None \<Rightarrow> True)
   \<and> (case draw45DegBraceHalf (0, 0) (60, 0) 1 default_brace of
         Inr ops \<Rightarrow> tangent_continuous ops
       | Inl err \<Rightarrow> False)"
proof -
  have a: "20 \<le> sqrt ((fst (60, 0) - fst (0, 0)) * (fst (60, 0) - fst (0, 0))
               + (snd (60, 0) - snd (0, 0)) * (snd (60, 0) - snd (0::real, 0::real)))"
    by (simp add: sqrt_3600)
  have b: "(1::real) = 1 \<or> (1::real) = -1"
    by simp
  have c: "case js_or (elevation default_brace) (width default_brace) of
         Some e \<Rightarrow> 0 \<le> e | None \<Rightarrow> True"
    by (simp add: default_brace_def js_or_def truthy_def)
  from brace_half_tangent_continuous [OF a b c] a b c show ?thesis
    by (intro conjI) assumption+
qed

text \<open>
  C8 as stated, for every elevation, fails: with a negative effective elevation, be it a
  negative elevation or, the elevation being absent, a negative legacy width, the radii
  are negative and the first \<open>arc\<close> call throws.
\<close>

theorem negative_elevation_throws:
  "draw45DegBraceHalf (0, 0) (60, 0) 1 negative_brace = Inl IndexSizeError
   \<and> \<not> (case draw45DegBraceHalf (0, 0) (60, 0) 1 negative_brace of
          Inr ops \<Rightarrow> tangent_continuous ops
        | Inl err \<Rightarrow> False)
   \<and> draw45DegBraceHalf (0, 0) (60, 0) 1 legacy_brace = Inl IndexSizeError
   \<and> \<not> (case draw45DegBraceHalf (0, 0) (60, 0) 1 legacy_brace of
          Inr ops \<Rightarrow> tangent_continuous ops
        | Inl err \<Rightarrow> False)"
proof -
  have "draw45DegBraceHalf (0, 0) (60, 0) 1 negative_brace = Inl IndexSizeError"
    by (simp add: draw45DegBraceHalf_def Let_def sqrt_3600 negative_brace_def js_or_def
        truthy_def ctx_arc_def mult_less_0_iff)
  moreover have "draw45DegBraceHalf (0, 0) (60, 0) 1 legacy_brace = Inl IndexSizeError"
    by (simp add: draw45DegBraceHalf_def Let_def sqrt_3600 legacy_brace_def js_or_def
        truthy_def ctx_arc_def mult_less_0_iff)
  ultimately show ?thesis
    by simp
qed

section \<open>Colour keys\<close>

lemma hash_blocks:
  "hash_step CHR ''a'' (hash_step CHR ''A'' h) = hash_step CHR ''B'' (hash_step CHR ''B'' h)"
  by (simp add: hash_step_def push_bit_eq_mult algebra_simps)

lemma block_ids_hash:
  assumes "x \<in> set (block_ids n)" and "y \<in> set (block_ids n)"
  shows "fold hash_step x h = fold hash_step y h"
  using assms
proof (induction n arbitrary: x y h)
  case 0
  then show ?case by simp
next
  case (Suc n)
  from Suc.prems(1) obtain x' where x: "x' \<in> set (block_ids n)"
    "fold hash_step x h = fold hash_step x' (hash_step CHR ''a'' (hash_step CHR ''A'' h))"
    by (auto simp add: hash_blocks)
  from Suc.prems(2) obtain y' where y: "y' \<in> set (block_ids n)"
    "fold hash_step y h = fold hash_step y' (hash_step CHR ''a'' (hash_step CHR ''A'' h))"
    by (auto simp add: hash_blocks)
  from Suc.IH [OF x(1) y(1)] x(2) y(2) show ?case
    by simp
qed

lemma block_ids_length: "x \<in> set (block_ids n) \<Longrightarrow> length x = 2 * n"
  by (induction n arbitrary: x) auto

lemma block_ids_count: "length (block_ids n) = 2 ^ n"
  by (induction n) simp_all

lemma block_ids_distinct: "distinct (block_ids n)"
proof (induction n)
  case 0
  show ?case by simp
next
  case (Suc n)
  have "distinct (map ((@) ''Aa'') (block_ids n))" "distinct (map ((@) ''BB'') (block_ids n))"
    using Suc by (simp_all add: distinct_map inj_on_def)
  moreover have "set (map ((@) ''Aa'') (block_ids n)) \<inter> set (map ((@) ''BB'') (block_ids n)) = {}"
    by auto
  ultimately show ?case
    by simp
qed

lemma block_ids_color:
  assumes "x \<in> set (block_ids n)" and "y \<in> set (block_ids n)"
  shows "generateUniqueColor x salt = generateUniqueColor y salt"
proof -
  from assms have "length x = length y"
    by (simp add: block_ids_length)
  then have "x = [] \<longleftrightarrow> y = []"
    by auto
  with block_ids_hash [OF assms] show ?thesis
    by (simp add: generateUniqueColor_def)
qed

lemma candidate_48:
  "generateUniqueColor ''AaAaAaAaAaAaAaAaAaAaAa'' 48 = (2, 0, 0)"
  by (simp add: generateUniqueColor_def hash_step_def enhance_contrast_def Let_def)

lemma resolve_collision_result:
  assumes "resolve_collision object_id m (generateUniqueColor object_id a) a = (c, n)"
    and "a \<le> 1000"
  shows "(n < 1000 \<and> c = generateUniqueColor object_id n \<and> m c = None \<and> \<not> isBackgroundColor c)
       \<or> (n = 1000 \<and> (\<forall>k. a \<le> k \<and> k < 1000 \<longrightarrow>
              m (generateUniqueColor object_id k) \<noteq> None
              \<or> isBackgroundColor (generateUniqueColor object_id k)))"
  using assms
proof (induction "1000 - a" arbitrary: a)
  case 0
  then have a: "a = 1000" by simp
  from 0(2) have "n = 1000"
    by (subst (asm) resolve_collision.simps) (simp add: a)
  with a show ?case by auto
next
  case (Suc d)
  then have lt: "a < 1000" by simp
  let ?c = "generateUniqueColor object_id a"
  show ?case
  proof (cases "m ?c \<noteq> None \<or> isBackgroundColor ?c")
    case True
    with lt Suc.prems(1)
    have r: "resolve_collision object_id m (generateUniqueColor object_id (a + 1)) (a + 1) = (c, n)"
      by (subst (asm) resolve_collision.simps) simp
    from Suc.hyps(2) have d: "d = 1000 - (a + 1)" by simp
    from lt have le: "a + 1 \<le> 1000" by simp
    from Suc.hyps(1) [OF d r le] show ?thesis
    proof
      assume "n < 1000 \<and> c = generateUniqueColor object_id n \<and> m c = None \<and> \<not> isBackgroundColor c"
      then show ?thesis by blast
    next
      assume h: "n = 1000 \<and> (\<forall>k. a + 1 \<le> k \<and> k < 1000 \<longrightarrow>
              m (generateUniqueColor object_id k) \<noteq> None
              \<or> isBackgroundColor (generateUniqueColor object_id k))"
      have "m (generateUniqueColor object_id k) \<noteq> None
              \<or> isBackgroundColor (generateUniqueColor object_id k)"
        if "a \<le> k \<and> k < 1000" for k
      proof (cases "k = a")
        case True
        with \<open>m ?c \<noteq> None \<or> isBackgroundColor ?c\<close> show ?thesis by simp
      next
        case False
        with that have "a + 1 \<le> k \<and> k < 1000" by simp
        with h show ?thesis by blast
      qed
      with h show ?thesis by blast
    qed
  next
    case False
    with Suc.prems(1) have "c = ?c" "n = a"
      by (subst (asm) resolve_collision.simps, simp)+
    with False lt show ?thesis by simp
  qed
qed


lemma getObjectColor_new:
  assumes "id_color_map s object_id = None"
  shows "\<exists>c n. getObjectColor object_id s =
            (c, s\<lparr>next_color_id := n,
                  id_color_map := (id_color_map s)(object_id \<mapsto> c),
                  object_color_map := (object_color_map s)(c \<mapsto> object_id)\<rparr>)
          \<and> ((n = next_color_id s \<and> object_color_map s c = None \<and> \<not> isBackgroundColor c
               \<and> (\<exists>k < 1000. c = generateUniqueColor object_id k))
              \<or> (n = next_color_id s + 1 \<and> c = sequential_color (next_color_id s)
                  \<and> (\<forall>k < 1000. object_color_map s (generateUniqueColor object_id k) \<noteq> None
                        \<or> isBackgroundColor (generateUniqueColor object_id k))))"
proof -
  obtain c0 n0 where r: "resolve_collision object_id (object_color_map s)
      (generateUniqueColor object_id 0) 0 = (c0, n0)"
    by (cases "resolve_collision object_id (object_color_map s)
      (generateUniqueColor object_id 0) 0")
  have "(0::nat) \<le> 1000" by simp
  from resolve_collision_result [OF r this] show ?thesis
  proof
    assume h: "n0 < 1000 \<and> c0 = generateUniqueColor object_id n0
        \<and> object_color_map s c0 = None \<and> \<not> isBackgroundColor c0"
    then have "getObjectColor object_id s =
            (c0, s\<lparr>next_color_id := next_color_id s,
                  id_color_map := (id_color_map s)(object_id \<mapsto> c0),
                  object_color_map := (object_color_map s)(c0 \<mapsto> object_id)\<rparr>)"
      using assms r by (simp add: getObjectColor_def)
    with h show ?thesis by blast
  next
    assume h: "n0 = 1000 \<and> (\<forall>k. 0 \<le> k \<and> k < 1000 \<longrightarrow>
              object_color_map s (generateUniqueColor object_id k) \<noteq> None
              \<or> isBackgroundColor (generateUniqueColor object_id k))"
    then have "getObjectColor object_id s =
            (sequential_color (next_color_id s), s\<lparr>next_color_id := next_color_id s + 1,
                  id_color_map := (id_color_map s)(object_id \<mapsto> sequential_color (next_color_id s)),
                  object_color_map := (object_color_map s)
                     (sequential_color (next_color_id s) \<mapsto> object_id)\<rparr>)"
      using assms r
      by (simp add: getObjectColor_def generateSequentialColor_def sequential_color_def Let_def)
    with h show ?thesis by blast
  qed
qed

lemma collidedI:
  assumes "x \<noteq> y" and "id_color_map s x = Some c" and "id_color_map s y = Some c"
  shows "collided s"
  unfolding collided_def using assms by blast

lemma collidedE:
  assumes "collided s"
  obtains x y c where "x \<noteq> y" and "id_color_map s x = Some c" and "id_color_map s y = Some c"
  using assms unfolding collided_def by blast

lemma candidates_finite: "finite (candidates cand)"
  by (simp add: candidates_def)

lemma candidates_card: "card (candidates cand) \<le> 1000"
proof -
  have "card (candidates cand) \<le> card (cand ` {..<1000})"
    by (rule card_mono) (auto simp add: candidates_def)
  also have "\<dots> \<le> card {..<(1000::nat)}"
    by (rule card_image_le) simp
  finally show ?thesis by simp
qed

lemma color_invariant_step:
  assumes inv: "color_invariant cand kstar n s"
    and new: "id_color_map s x = None"
    and cx: "\<And>k. generateUniqueColor x k = cand k"
    and star: "sstar < 1000" "cand sstar = sequential_color kstar"
      "\<not> isBackgroundColor (cand sstar)"
  shows "color_invariant cand kstar (n + 1) (snd (getObjectColor x s))
       \<and> dom (id_color_map (snd (getObjectColor x s))) = insert x (dom (id_color_map s))"
proof -
  let ?D = "candidates cand"
  from getObjectColor_new [OF new] obtain c nx where
    g: "getObjectColor x s =
            (c, s\<lparr>next_color_id := nx,
                  id_color_map := (id_color_map s)(x \<mapsto> c),
                  object_color_map := (object_color_map s)(c \<mapsto> x)\<rparr>)"
    and alt: "(nx = next_color_id s \<and> object_color_map s c = None \<and> \<not> isBackgroundColor c
               \<and> (\<exists>k < 1000. c = generateUniqueColor x k))
              \<or> (nx = next_color_id s + 1 \<and> c = sequential_color (next_color_id s)
                  \<and> (\<forall>k < 1000. object_color_map s (generateUniqueColor x k) \<noteq> None
                        \<or> isBackgroundColor (generateUniqueColor x k)))"
    by blast
  define s' where "s' = snd (getObjectColor x s)"
  have icm': "id_color_map s' = (id_color_map s)(x \<mapsto> c)"
    and ocm': "object_color_map s' = (object_color_map s)(c \<mapsto> x)"
    and nx': "next_color_id s' = nx"
    by (simp_all add: s'_def g)
  from inv have dr: "dom (object_color_map s) = ran (id_color_map s)"
    by (simp add: color_invariant_def)
  have dr': "dom (object_color_map s') = ran (id_color_map s')"
    using new dr by (simp add: icm' ocm')
  have dom': "dom (id_color_map s') = insert x (dom (id_color_map s))"
    by (simp add: icm')
  have mono: "collided s'" if "collided s"
  proof -
    from that obtain a b col where ab: "a \<noteq> b" "id_color_map s a = Some col"
      "id_color_map s b = Some col"
      by (rule collidedE)
    with new have "a \<noteq> x" "b \<noteq> x" by auto
    with ab have "id_color_map s' a = Some col" "id_color_map s' b = Some col"
      by (simp_all add: icm')
    with ab(1) show ?thesis
      by (rule collidedI)
  qed
  have main: "collided s'
        \<or> (1 \<le> next_color_id s' \<and> next_color_id s' \<le> kstar
            \<and> (1 < next_color_id s' \<longrightarrow> ?D \<subseteq> dom (object_color_map s'))
            \<and> (n + 1) + 1 \<le> card (?D \<inter> dom (object_color_map s')) + next_color_id s')"
  proof (cases "collided s")
    case True
    with mono show ?thesis by simp
  next
    case False
    with inv have r: "1 \<le> next_color_id s" "next_color_id s \<le> kstar"
      "1 < next_color_id s \<longrightarrow> ?D \<subseteq> dom (object_color_map s)"
      "n + 1 \<le> card (?D \<inter> dom (object_color_map s)) + next_color_id s"
      unfolding color_invariant_def by blast+
    from alt show ?thesis
    proof
      assume a: "nx = next_color_id s \<and> object_color_map s c = None \<and> \<not> isBackgroundColor c
               \<and> (\<exists>k < 1000. c = generateUniqueColor x k)"
      then have cD: "c \<in> ?D"
        by (auto simp add: candidates_def cx)
      from a have cn: "c \<notin> dom (object_color_map s)"
        by auto
      have "?D \<inter> dom (object_color_map s') = insert c (?D \<inter> dom (object_color_map s))"
        using cD by (auto simp add: ocm')
      moreover have "c \<notin> ?D \<inter> dom (object_color_map s)"
        using cn by simp
      ultimately have "card (?D \<inter> dom (object_color_map s'))
          = card (?D \<inter> dom (object_color_map s)) + 1"
        using candidates_finite [of cand] by simp
      moreover have "?D \<subseteq> dom (object_color_map s')" if "?D \<subseteq> dom (object_color_map s)"
        using that by (auto simp add: ocm')
      ultimately show ?thesis
        using r a by (simp add: nx')
    next
      assume b: "nx = next_color_id s + 1 \<and> c = sequential_color (next_color_id s)
                  \<and> (\<forall>k < 1000. object_color_map s (generateUniqueColor x k) \<noteq> None
                        \<or> isBackgroundColor (generateUniqueColor x k))"
      then have full: "?D \<subseteq> dom (object_color_map s)"
        by (auto simp add: candidates_def cx)
      then have full': "?D \<subseteq> dom (object_color_map s')"
        by (auto simp add: ocm')
      show ?thesis
      proof (cases "next_color_id s = kstar")
        case True
        with b star(2) have cs: "c = cand sstar" by simp
        from star(1) have "cand sstar \<in> cand ` {..<1000}"
          by (intro imageI) simp
        with star(3) have "c \<in> ?D"
          unfolding candidates_def cs by simp
        with full dr have "c \<in> ran (id_color_map s)"
          by auto
        then obtain y where y: "id_color_map s y = Some c"
          by (auto simp add: ran_def)
        with new have "y \<noteq> x" by auto
        with y have "id_color_map s' y = Some c" "id_color_map s' x = Some c"
          by (simp_all add: icm')
        with \<open>y \<noteq> x\<close> have "collided s'"
          by (rule collidedI)
        then show ?thesis by simp
      next
        case False
        have "?D \<inter> dom (object_color_map s) \<subseteq> ?D \<inter> dom (object_color_map s')"
          by (auto simp add: ocm')
        then have "card (?D \<inter> dom (object_color_map s))
            \<le> card (?D \<inter> dom (object_color_map s'))"
          by (intro card_mono) (simp_all add: candidates_finite)
        with r b False full' show ?thesis
          by (simp add: nx')
      qed
    qed
  qed
  from dr' main dom' show ?thesis
    by (simp add: color_invariant_def s'_def)
qed

lemma color_invariant_fold:
  assumes "color_invariant cand kstar n s"
    and "distinct xs" and "set xs \<inter> dom (id_color_map s) = {}"
    and cx: "\<And>x k. x \<in> set xs \<Longrightarrow> generateUniqueColor x k = cand k"
    and star: "sstar < 1000" "cand sstar = sequential_color kstar"
      "\<not> isBackgroundColor (cand sstar)"
  shows "color_invariant cand kstar (n + length xs) (assign_colors xs s)
       \<and> dom (id_color_map (assign_colors xs s)) = set xs \<union> dom (id_color_map s)"
  using assms(1-4)
proof (induction xs arbitrary: n s)
  case Nil
  then show ?case by (simp add: assign_colors_def)
next
  case (Cons x xs)
  let ?s1 = "snd (getObjectColor x s)"
  from Cons.prems(3) have new: "id_color_map s x = None"
    by auto
  have cx1: "\<And>k. generateUniqueColor x k = cand k"
    by (rule Cons.prems(4)) simp
  from color_invariant_step [OF Cons.prems(1) new cx1 star]
  have i1: "color_invariant cand kstar (n + 1) ?s1"
    and d1: "dom (id_color_map ?s1) = insert x (dom (id_color_map s))"
    by simp_all
  from Cons.prems(2) have dist: "distinct xs" and nx: "x \<notin> set xs"
    by simp_all
  from Cons.prems(3) nx have disj: "set xs \<inter> dom (id_color_map ?s1) = {}"
    by (auto simp add: d1)
  have cxs: "\<And>y k. y \<in> set xs \<Longrightarrow> generateUniqueColor y k = cand k"
    by (rule Cons.prems(4)) simp
  from Cons.IH [OF i1 dist disj cxs] d1 show ?case
    by (simp add: assign_colors_def)
qed

lemma block_ids_member: "concat (replicate n ''Aa'') \<in> set (block_ids n)"
  by (induction n) simp_all

lemma eleven_blocks: "concat (replicate 11 ''Aa'') = ''AaAaAaAaAaAaAaAaAaAaAa''"
  by (simp add: eval_nat_numeral)

lemma sequential_color_2: "sequential_color 2 = (2, 0, 0)"
  by (simp add: sequential_color_def take_bit_eq_mod drop_bit_eq_div)

lemma new_picking_invariant: "color_invariant cand 2 0 new_picking"
  by (simp add: color_invariant_def new_picking_def)

text \<open>
  C3. The 2048 ids made of eleven blocks \<open>Aa\<close> or \<open>BB\<close> are pairwise different, yet in
  a new editor \<open>getObjectColor\<close> does not give them pairwise different colours: they share
  their candidates, so the retry loop runs out, and the sequential allocator then returns
  \<open>rgb(2,0,0)\<close>, which the retry loop has already given to another id.
\<close>

theorem sequential_fallback_collides:
  "distinct (block_ids 11) \<and> length (block_ids 11) = 2048
   \<and> \<not> distinct (map (id_color_map (assign_colors (block_ids 11) new_picking)) (block_ids 11))"
proof -
  define cand where "cand = generateUniqueColor ''AaAaAaAaAaAaAaAaAaAaAa''"
  define s where "s = assign_colors (block_ids 11) new_picking"
  have mem: "''AaAaAaAaAaAaAaAaAaAaAa'' \<in> set (block_ids 11)"
    using block_ids_member [of 11] by (simp only: eleven_blocks)
  have cx: "generateUniqueColor x k = cand k" if "x \<in> set (block_ids 11)" for x k
    unfolding cand_def by (rule block_ids_color [OF that mem])
  have star: "(48::nat) < 1000" "cand 48 = sequential_color 2" "\<not> isBackgroundColor (cand 48)"
    by (simp_all add: cand_def candidate_48 sequential_color_2 isBackgroundColor_def)
  have d: "distinct (block_ids 11)"
    by (rule block_ids_distinct)
  have l: "length (block_ids 11) = 2048"
    by (simp add: block_ids_count)
  have e: "set (block_ids 11) \<inter> dom (id_color_map new_picking) = {}"
    by (simp add: new_picking_def)
  from color_invariant_fold [OF new_picking_invariant d e cx star]
  have inv: "color_invariant cand 2 (0 + length (block_ids 11)) s"
    and dm: "dom (id_color_map s) = set (block_ids 11)"
    by (simp_all add: s_def new_picking_def)
  have col: "collided s"
  proof (rule ccontr)
    assume "\<not> collided s"
    with inv have n: "next_color_id s \<le> 2"
      and c: "0 + length (block_ids 11) + 1
                \<le> card (candidates cand \<inter> dom (object_color_map s)) + next_color_id s"
      unfolding color_invariant_def by blast+
    have "card (candidates cand \<inter> dom (object_color_map s)) \<le> card (candidates cand)"
      by (intro card_mono) (simp_all add: candidates_finite)
    also note candidates_card
    finally have "card (candidates cand \<inter> dom (object_color_map s)) \<le> 1000" .
    with n c l show False
      by simp
  qed
  then obtain x y c where xy: "x \<noteq> y" "id_color_map s x = Some c" "id_color_map s y = Some c"
    by (rule collidedE)
  then have m: "x \<in> set (block_ids 11)" "y \<in> set (block_ids 11)"
    using dm by auto
  have "\<not> inj_on (id_color_map s) (set (block_ids 11))"
  proof
    assume "inj_on (id_color_map s) (set (block_ids 11))"
    from inj_onD [OF this _ m] xy(2,3) have "x = y" by simp
    with xy(1) show False by simp
  qed
  then have "\<not> distinct (map (id_color_map s) (block_ids 11))"
    by (simp add: distinct_map)
  with d l show ?thesis
    by (simp add: s_def)
qed

section \<open>Occlusion in the picking canvas\<close>




lemma paint_maps [simp]:
  "id_color_map (paint region c s) = id_color_map s"
  "object_color_map (paint region c s) = object_color_map s"
  "next_color_id (paint region c s) = next_color_id s"
  by (simp_all add: paint_def)





lemma draw_maps [simp]:
  "id_color_map (drawPickingObject shape_region obj c s) = id_color_map s"
  "object_color_map (drawPickingObject shape_region obj c s) = object_color_map s"
  "id_color_map (drawPickingBBox hit_region obj c s) = id_color_map s"
  "object_color_map (drawPickingBBox hit_region obj c s) = object_color_map s"
  by (simp_all add: drawPickingObject_def drawPickingBBox_def)

































section \<open>Two ids with one colour\<close>





























































section \<open>Queries that do not follow the z order\<close>







end
